theory Spec2Isabelle
  imports Main "HOL-Library.AList"
begin

section \<open>Python values used by \<^verbatim>\<open>database_requires.py\<close>\<close>

text \<open>
  The exceptions that the modelled functions can raise. A function that raises returns
  \<open>Inl\<close> of the exception; \<open>RelationNotFoundError\<close> stands for the access to the data of
  a relation id that the model does not know.
\<close>

datatype error =
  ValueError | IndexError | AttributeError | JSONDecodeError | RuntimeError
  | RelationNotFoundError

text \<open>
  A Python \<^verbatim>\<open>dict\<close> is an association list in insertion order; \<^verbatim>\<open>d.get(k)\<close>,
  \<^verbatim>\<open>d.get(k, default)\<close>, \<^verbatim>\<open>d.keys()\<close> (as the set that the set operators make of it) and
  \<^verbatim>\<open>d.update(other)\<close> are the functions below. A relation databag (\<^verbatim>\<open>relation.data[x]\<close>)
  maps strings to strings; it is read like a dict, and in the unit test of \<^verbatim>\<open>_diff\<close> the
  databags of the mock event are plain dicts.
\<close>

type_synonym databag = "(string \<times> string) list"

definition dict_get :: "('k \<times> 'v) list \<Rightarrow> 'k \<Rightarrow> 'v option" where
  "dict_get d k = map_of d k"

definition dict_get_default :: "('k \<times> 'v) list \<Rightarrow> 'k \<Rightarrow> 'v \<Rightarrow> 'v" where
  "dict_get_default d k dflt = (case map_of d k of None \<Rightarrow> dflt | Some v \<Rightarrow> v)"

definition dict_keys :: "('k \<times> 'v) list \<Rightarrow> 'k set" where
  "dict_keys d = set (map fst d)"

definition dict_update :: "('k \<times> 'v) list \<Rightarrow> ('k \<times> 'v) list \<Rightarrow> ('k \<times> 'v) list" where
  "dict_update d other = fold (\<lambda>(k, v). AList.update k v) other d"

text \<open>The truth value of an \<^verbatim>\<open>Optional[str]\<close>: \<^verbatim>\<open>None\<close> and \<^verbatim>\<open>""\<close> are false.\<close>

definition truthy :: "string option \<Rightarrow> bool" where
  "truthy x = (case x of None \<Rightarrow> False | Some s \<Rightarrow> s \<noteq> [])"

subsection \<open>JSON\<close>

text \<open>
  The values that \<^verbatim>\<open>json.loads\<close> returns. A number keeps the text of its literal: the
  code never computes with one. \<^verbatim>\<open>json.loads\<close> and \<^verbatim>\<open>json.dumps\<close> belong to Python's
  standard library, so the functions that call them take them as the parameters
  \<open>json_loads\<close> (\<open>None\<close> when it raises \<^verbatim>\<open>JSONDecodeError\<close>) and \<open>json_dumps\<close>.
\<close>

datatype json =
  JNull | JBool bool | JNum string | JStr string | JArr "json list"
  | JObj "(string \<times> json) list"

text \<open>The JSON value of a dict from strings to strings.\<close>

definition json_of_dict :: "databag \<Rightarrow> json" where
  "json_of_dict d = JObj (map (\<lambda>(k, v). (k, JStr v)) d)"

text \<open>
  What the code needs of the two: reading the text that was written for a value gives
  the value again.
\<close>

definition json_roundtrip :: "(string \<Rightarrow> json option) \<Rightarrow> (json \<Rightarrow> string) \<Rightarrow> json \<Rightarrow> bool" where
  "json_roundtrip json_loads json_dumps j = (json_loads (json_dumps j) = Some j)"

subsection \<open>A concrete reader and writer for flat objects\<close>

text \<open>
  For evaluating the model at concrete inputs: the writer produces the text that
  \<^verbatim>\<open>json.dumps\<close> produces for values whose strings are printable ASCII (separators
  \<^verbatim>\<open>", "\<close> and \<^verbatim>\<open>": "\<close>, quote and backslash escaped), and the reader accepts the objects
  whose members are strings, with optional white space, and rejects every other text.
\<close>

datatype token = LBrace | RBrace | Colon | Comma | TStr string

definition unescape :: "char \<Rightarrow> char option" where
  "unescape e =
     (if e = CHR 0x22 then Some (CHR 0x22)
      else if e = CHR 0x5C then Some (CHR 0x5C)
      else if e = CHR ''/'' then Some (CHR ''/'')
      else if e = CHR ''n'' then Some (CHR 0x0A)
      else if e = CHR ''r'' then Some (CHR 0x0D)
      else if e = CHR ''t'' then Some (CHR 0x09)
      else if e = CHR ''b'' then Some (CHR 0x08)
      else if e = CHR ''f'' then Some (CHR 0x0C)
      else None)"

definition whitespace :: "char \<Rightarrow> bool" where
  "whitespace c = (c = CHR '' '' \<or> c = CHR 0x0A \<or> c = CHR 0x0D \<or> c = CHR 0x09)"

text \<open>
  The scanner: its first argument is \<open>None\<close> between tokens and, inside a string
  literal, the characters read so far (in reverse).
\<close>

fun lex :: "string option \<Rightarrow> string \<Rightarrow> token list option" where
  "lex None [] = Some []"
| "lex (Some acc) [] = None"
| "lex None (c # cs) =
     (if c = CHR 0x22 then lex (Some []) cs
      else if whitespace c then lex None cs
      else if c = CHR ''{'' then map_option ((#) LBrace) (lex None cs)
      else if c = CHR ''}'' then map_option ((#) RBrace) (lex None cs)
      else if c = CHR '':'' then map_option ((#) Colon) (lex None cs)
      else if c = CHR '','' then map_option ((#) Comma) (lex None cs)
      else None)"
| "lex (Some acc) (c # cs) =
     (if c = CHR 0x22 then map_option ((#) (TStr (rev acc))) (lex None cs)
      else if c = CHR 0x5C then
        (case cs of
           [] \<Rightarrow> None
         | e # cs' \<Rightarrow>
             (case unescape e of None \<Rightarrow> None | Some x \<Rightarrow> lex (Some (x # acc)) cs'))
      else lex (Some (c # acc)) cs)"

fun members :: "token list \<Rightarrow> (string \<times> json) list option" where
  "members [TStr k, Colon, TStr v, RBrace] = Some [(k, JStr v)]"
| "members (TStr k # Colon # TStr v # Comma # rest) =
     map_option ((#) (k, JStr v)) (members rest)"
| "members _ = None"

text \<open>A repeated key keeps its first place and its last value, as in a Python dict.\<close>

definition loads_flat :: "string \<Rightarrow> json option" where
  "loads_flat s =
     (case lex None s of
        None \<Rightarrow> None
      | Some [LBrace, RBrace] \<Rightarrow> Some (JObj [])
      | Some (LBrace # ts) \<Rightarrow> map_option (\<lambda>kvs. JObj (dict_update [] kvs)) (members ts)
      | Some _ \<Rightarrow> None)"

definition quote :: "string \<Rightarrow> string" where
  "quote s =
     CHR 0x22 #
     concat (map (\<lambda>c. if c = CHR 0x22 \<or> c = CHR 0x5C then [CHR 0x5C, c] else [c]) s)
     @ [CHR 0x22]"

fun join :: "string \<Rightarrow> string list \<Rightarrow> string" where
  "join sep [] = []"
| "join sep [x] = x"
| "join sep (x # y # ys) = x @ sep @ join sep (y # ys)"

fun dumps_flat :: "json \<Rightarrow> string" where
  "dumps_flat JNull = ''null''"
| "dumps_flat (JBool b) = (if b then ''true'' else ''false'')"
| "dumps_flat (JNum n) = n"
| "dumps_flat (JStr s) = quote s"
| "dumps_flat (JArr xs) = ''['' @ join '', '' (map dumps_flat xs) @ '']''"
| "dumps_flat (JObj kvs) =
     ''{'' @ join '', '' (map (\<lambda>(k, v). quote k @ '': '' @ dumps_flat v) kvs) @ ''}''"

section \<open>The relation data\<close>

text \<open>
  A relation with the three databags the library touches: \<open>app_data\<close> is
  \<^verbatim>\<open>relation.data[relation.app]\<close> (the remote application, which is \<^verbatim>\<open>event.app\<close> of a
  relation-changed event), \<open>local_unit_data\<close> is \<^verbatim>\<open>relation.data[self.local_unit]\<close> and
  \<open>local_app_data\<close> is \<^verbatim>\<open>relation.data[self.local_app]\<close>.
\<close>

record relation =
  rel_id :: int
  app_data :: databag
  local_unit_data :: databag
  local_app_data :: databag

record Diff =
  added :: "string set"
  changed :: "string set"
  deleted :: "string set"

subsection \<open>\<^verbatim>\<open>BaseRequires._diff\<close>\<close>

text \<open>
  \<open>new_data\<close> is the local variable of that name: the databag of the remote application
  without the reserved key \<^verbatim>\<open>data\<close>.
\<close>

definition new_data :: "relation \<Rightarrow> databag" where
  "new_data rel = filter (\<lambda>(key, value). key \<noteq> ''data'') (app_data rel)"

text \<open>
  The function mutates the local unit databag of the event's relation, so the model
  returns the relation as it is after the call, beside the \<open>Diff\<close>. Both exceptions are
  raised before the databag is written. \<^verbatim>\<open>old_data.keys()\<close> raises \<^verbatim>\<open>AttributeError\<close> when
  the stored text is JSON but not an object.
\<close>

definition diff ::
  "(string \<Rightarrow> json option) \<Rightarrow> (json \<Rightarrow> string) \<Rightarrow> relation \<Rightarrow> error + (Diff \<times> relation)" where
  "diff json_loads json_dumps rel =
     (case json_loads (dict_get_default (local_unit_data rel) ''data'' ''{}'') of
        None \<Rightarrow> Inl JSONDecodeError
      | Some (JObj old_data) \<Rightarrow>
          (let added = dict_keys (new_data rel) - dict_keys old_data;
               deleted = dict_keys old_data - dict_keys (new_data rel);
               changed =
                 Set.filter
                   (\<lambda>key. map_of old_data key \<noteq> map_option JStr (map_of (new_data rel) key))
                   (dict_keys old_data \<inter> dict_keys (new_data rel))
           in Inr (\<lparr>added = added, changed = changed, deleted = deleted\<rparr>,
                   rel\<lparr>local_unit_data :=
                     dict_update (local_unit_data rel)
                       [(''data'', json_dumps (json_of_dict (new_data rel)))]\<rparr>))
      | Some _ \<Rightarrow> Inl AttributeError)"

section \<open>The charm's model and the requirer objects\<close>

text \<open>
  \<open>relations\<close> is \<^verbatim>\<open>self.charm.model.relations[self.relation_name]\<close> and \<open>is_leader\<close> is
  \<^verbatim>\<open>self.local_unit.is_leader()\<close>. \<^verbatim>\<open>get_relation\<close> returns the relation of the given
  id; a relation object that the code mutates is written to its place in the list.
\<close>

record model =
  relations :: "relation list"
  is_leader :: bool

definition get_relation :: "model \<Rightarrow> int \<Rightarrow> relation option" where
  "get_relation m relation_id = find (\<lambda>relation. rel_id relation = relation_id) (relations m)"

fun replace_relation :: "relation \<Rightarrow> relation list \<Rightarrow> relation list" where
  "replace_relation r [] = []"
| "replace_relation r (x # xs) =
     (if rel_id x = rel_id r then r # xs else x # replace_relation r xs)"

definition put_relation :: "relation \<Rightarrow> model \<Rightarrow> model" where
  "put_relation r m = m\<lparr>relations := replace_relation r (relations m)\<rparr>"

text \<open>
  The fields of the objects. \<open>on_events\<close> holds the names of the events that
  \<^verbatim>\<open>self.on\<close> has as attributes.
\<close>

record BaseRequires =
  extra_user_roles :: "string option"

record DatabaseRequires = BaseRequires +
  database :: string
  relations_aliases :: "string list option"
  on_events :: "string list"

record ZookeeperRequires = BaseRequires +
  chroot :: string

subsection \<open>\<^verbatim>\<open>BaseRequires._update_relation_data\<close>\<close>

text \<open>
  \<^verbatim>\<open>relation.data[self.local_app]\<close> is the databag object of the \<^verbatim>\<open>ops\<close> framework. Its
  \<^verbatim>\<open>update\<close> sets the given keys one by one, and setting a key to the empty string
  removes the key from the databag, as Juju does; the unit tests reset the alias of a
  relation by writing \<^verbatim>\<open>""\<close> to it.
\<close>

definition databag_set :: "string \<Rightarrow> string \<Rightarrow> databag \<Rightarrow> databag" where
  "databag_set key value bag =
     (if value = [] then AList.delete key bag else AList.update key value bag)"

definition databag_update :: "databag \<Rightarrow> databag \<Rightarrow> databag" where
  "databag_update bag other = fold (\<lambda>(key, value). databag_set key value) other bag"

text \<open>
  For an id that is no relation of the model \<^verbatim>\<open>get_relation\<close> still returns a relation
  object: an update with no pairs writes nothing and the function returns, and the
  first write of any other update is refused.
\<close>

definition update_relation_data :: "model \<Rightarrow> int \<Rightarrow> databag \<Rightarrow> error + model" where
  "update_relation_data m relation_id data =
     (if is_leader m then
        (case get_relation m relation_id of
           None \<Rightarrow> if data = [] then Inr m else Inl RelationNotFoundError
         | Some relation \<Rightarrow>
             Inr (put_relation
                   (relation\<lparr>local_app_data :=
                      databag_update (local_app_data relation) data\<rparr>) m))
      else Inr m)"

subsection \<open>\<^verbatim>\<open>DatabaseRequires.__init__\<close>\<close>

text \<open>The events that the class \<^verbatim>\<open>DatabaseEvents\<close> declares.\<close>

definition DatabaseEvents :: "string list" where
  "DatabaseEvents = [''database_created'', ''endpoints_changed'', ''read_only_endpoints_changed'']"

text \<open>
  \<^verbatim>\<open>define_event\<close> of the \<^verbatim>\<open>ops\<close> framework adds an attribute to the events class and
  refuses a name that the class already has; the fixture \<^verbatim>\<open>reset_aliases\<close> of the unit
  tests deletes the aliased events between tests for that reason.
\<close>

definition define_event :: "string \<Rightarrow> string list \<Rightarrow> error + string list" where
  "define_event event_kind events =
     (if event_kind \<in> set events then Inl RuntimeError else Inr (events @ [event_kind]))"

text \<open>The three events that the constructor defines for one alias.\<close>

definition alias_events :: "string \<Rightarrow> string list" where
  "alias_events relation_alias =
     [relation_alias @ ''_database_created'', relation_alias @ ''_endpoints_changed'',
      relation_alias @ ''_read_only_endpoints_changed'']"

text \<open>The loop over the aliases, three events for each.\<close>

fun define_alias_events :: "string list \<Rightarrow> string list \<Rightarrow> error + string list" where
  "define_alias_events [] events = Inr events"
| "define_alias_events (relation_alias # rest) events =
     (case define_event (relation_alias @ ''_database_created'') events of
        Inl e \<Rightarrow> Inl e
      | Inr events1 \<Rightarrow>
     (case define_event (relation_alias @ ''_endpoints_changed'') events1 of
        Inl e \<Rightarrow> Inl e
      | Inr events2 \<Rightarrow>
     (case define_event (relation_alias @ ''_read_only_endpoints_changed'') events2 of
        Inl e \<Rightarrow> Inl e
      | Inr events3 \<Rightarrow> define_alias_events rest events3)))"

text \<open>
  The constructor. \<open>events\<close> are the names the events class has when the object is
  built and \<open>limit\<close> is \<^verbatim>\<open>self.charm.meta.requires[relation_name].limit\<close>, which is \<open>None\<close>
  when the metadata declares no limit. \<^verbatim>\<open>if relations_aliases:\<close> is false for \<^verbatim>\<open>None\<close> and
  for the empty list.
\<close>

definition DatabaseRequires_init ::
  "string list \<Rightarrow> int option \<Rightarrow> string \<Rightarrow> string option \<Rightarrow> string list option
     \<Rightarrow> error + DatabaseRequires" where
  "DatabaseRequires_init events limit database_name roles aliases_opt =
     (let self = \<lparr>extra_user_roles = roles, database = database_name,
                  relations_aliases = aliases_opt, on_events = events\<rparr>
      in case aliases_opt of
           None \<Rightarrow> Inr self
         | Some aliases \<Rightarrow>
             if aliases = [] then Inr self
             else if Some (int (length aliases)) \<noteq> limit then Inl ValueError
             else (case define_alias_events aliases events of
                     Inl e \<Rightarrow> Inl e
                   | Inr events' \<Rightarrow> Inr (self\<lparr>on_events := events'\<rparr>)))"

subsection \<open>\<^verbatim>\<open>DatabaseRequires._assign_relation_alias\<close>\<close>

text \<open>
  The loop that removes from the copy of the pool the alias of every relation that has
  one. \<^verbatim>\<open>list.remove\<close> deletes the first occurrence and raises \<^verbatim>\<open>ValueError\<close> when there is
  none.
\<close>

fun remove_assigned :: "relation list \<Rightarrow> string list \<Rightarrow> error + string list" where
  "remove_assigned [] available_aliases = Inr available_aliases"
| "remove_assigned (relation # rest) available_aliases =
     (case dict_get (local_unit_data relation) ''alias'' of
        None \<Rightarrow> remove_assigned rest available_aliases
      | Some alias \<Rightarrow>
          if alias = [] then remove_assigned rest available_aliases
          else if alias \<in> set available_aliases
            then remove_assigned rest (remove1 alias available_aliases)
          else Inl ValueError)"

text \<open>
  The aliases that the loop finds: for each relation in turn, the value of \<^verbatim>\<open>alias\<close> in
  the local unit databag when \<^verbatim>\<open>if alias:\<close> holds.
\<close>

fun assigned_aliases :: "relation list \<Rightarrow> string list" where
  "assigned_aliases [] = []"
| "assigned_aliases (relation # rest) =
     (case dict_get (local_unit_data relation) ''alias'' of
        None \<Rightarrow> assigned_aliases rest
      | Some alias \<Rightarrow> if alias = [] then assigned_aliases rest else alias # assigned_aliases rest)"

text \<open>\<^verbatim>\<open>available_aliases[0]\<close> raises \<^verbatim>\<open>IndexError\<close> on the empty list.\<close>

definition assign_relation_alias :: "DatabaseRequires \<Rightarrow> model \<Rightarrow> int \<Rightarrow> error + model" where
  "assign_relation_alias self m relation_id =
     (case relations_aliases self of
        None \<Rightarrow> Inr m
      | Some aliases \<Rightarrow>
          if aliases = [] then Inr m
          else
            (case get_relation m relation_id of
               None \<Rightarrow> Inl RelationNotFoundError
             | Some relation \<Rightarrow>
                 if truthy (dict_get (local_unit_data relation) ''alias'') then Inr m
                 else
                   (case remove_assigned (relations m) aliases of
                      Inl e \<Rightarrow> Inl e
                    | Inr available_aliases \<Rightarrow>
                        (case available_aliases of
                           [] \<Rightarrow> Inl IndexError
                         | alias # _ \<Rightarrow>
                             Inr (put_relation
                                   (relation\<lparr>local_unit_data :=
                                      dict_update (local_unit_data relation)
                                        [(''alias'', alias)]\<rparr>) m)))))"

subsection \<open>Events\<close>

text \<open>
  A relation event carries the relation (its id), the remote application and, when
  there is one, the remote unit. An emission is one call of \<^verbatim>\<open>emit\<close> on the event of
  the given name, with the arguments it passes on.
\<close>

record event =
  ev_relation_id :: int
  ev_app :: string
  ev_unit :: "string option"

record emission =
  em_name :: string
  em_relation :: int
  em_app :: string
  em_unit :: "string option"

definition emit :: "string \<Rightarrow> event \<Rightarrow> emission" where
  "emit name ev =
     \<lparr>em_name = name, em_relation = ev_relation_id ev, em_app = ev_app ev, em_unit = ev_unit ev\<rparr>"

definition get_relation_alias :: "model \<Rightarrow> int \<Rightarrow> string option" where
  "get_relation_alias m relation_id =
     (case find (\<lambda>relation. rel_id relation = relation_id) (relations m) of
        None \<Rightarrow> None
      | Some relation \<Rightarrow> dict_get (local_unit_data relation) ''alias'')"

text \<open>
  \<^verbatim>\<open>getattr(self.on, name)\<close> raises \<^verbatim>\<open>AttributeError\<close> for a name that is no attribute of
  the events object.
\<close>

definition emit_aliased_event ::
  "DatabaseRequires \<Rightarrow> model \<Rightarrow> event \<Rightarrow> string \<Rightarrow> error + emission list" where
  "emit_aliased_event self m ev event_name =
     (case get_relation_alias m (ev_relation_id ev) of
        None \<Rightarrow> Inr []
      | Some alias \<Rightarrow>
          if alias = [] then Inr []
          else if alias @ ''_'' @ event_name \<in> set (on_events self)
            then Inr [emit (alias @ ''_'' @ event_name) ev]
          else Inl AttributeError)"

subsection \<open>\<^verbatim>\<open>DatabaseRequires._on_relation_changed_event\<close>\<close>

text \<open>
  The handler returns the model after the call, the emissions in the order they were
  made and the exception that ended it, if one did. The first two statements of each
  branch are \<open>emit_both\<close>: the emission of the default event, then
  \<^verbatim>\<open>_emit_aliased_event\<close>.
\<close>

definition emit_both ::
  "DatabaseRequires \<Rightarrow> model \<Rightarrow> event \<Rightarrow> string \<Rightarrow> model \<times> emission list \<times> error option" where
  "emit_both self m ev event_name =
     (case emit_aliased_event self m ev event_name of
        Inl e \<Rightarrow> (m, [emit event_name ev], Some e)
      | Inr aliased \<Rightarrow> (m, emit event_name ev # aliased, None))"

definition on_relation_changed_event ::
  "(string \<Rightarrow> json option) \<Rightarrow> (json \<Rightarrow> string) \<Rightarrow> DatabaseRequires \<Rightarrow> model \<Rightarrow> event
     \<Rightarrow> model \<times> emission list \<times> error option" where
  "on_relation_changed_event json_loads json_dumps self m ev =
     (case get_relation m (ev_relation_id ev) of
        None \<Rightarrow> (m, [], Some RelationNotFoundError)
      | Some relation \<Rightarrow>
          (case diff json_loads json_dumps relation of
             Inl e \<Rightarrow> (m, [], Some e)
           | Inr (d, relation') \<Rightarrow>
               (let m' = put_relation relation' m in
                if ''username'' \<in> added d \<and> ''password'' \<in> added d
                  then emit_both self m' ev ''database_created''
                else if ''endpoints'' \<in> added d \<or> ''endpoints'' \<in> changed d
                  then emit_both self m' ev ''endpoints_changed''
                else if ''read-only-endpoints'' \<in> added d \<or> ''read-only-endpoints'' \<in> changed d
                  then emit_both self m' ev ''read_only_endpoints_changed''
                else (m', [], None))))"

subsection \<open>The kinds of events\<close>

text \<open>
  The pool of aliases of an object, empty when none was configured. The events of one
  kind are the default event and, for every alias of the pool, the event that the
  constructor defines for it with the same event class; a kind fires when one of its
  events is emitted.
\<close>

definition pool :: "DatabaseRequires \<Rightarrow> string list" where
  "pool self = (case relations_aliases self of None \<Rightarrow> [] | Some aliases \<Rightarrow> aliases)"

definition kind_events :: "DatabaseRequires \<Rightarrow> string \<Rightarrow> string list" where
  "kind_events self kind = kind # map (\<lambda>alias. alias @ ''_'' @ kind) (pool self)"

definition fired :: "DatabaseRequires \<Rightarrow> string \<Rightarrow> emission list \<Rightarrow> bool" where
  "fired self kind ems = (\<exists>e \<in> set ems. em_name e \<in> set (kind_events self kind))"

text \<open>
  The publication of an event as the specification words it: the unqualified event
  first, then the alias-qualified one if the relation has an alias, with the same
  relation, application and unit.
\<close>

definition spec_publish :: "relation \<Rightarrow> event \<Rightarrow> string \<Rightarrow> emission list" where
  "spec_publish relation ev kind =
     emit kind ev #
     (case dict_get (local_unit_data relation) ''alias'' of
        None \<Rightarrow> []
      | Some alias \<Rightarrow> if alias = [] then [] else [emit (alias @ ''_'' @ kind) ev])"

subsection \<open>\<^verbatim>\<open>ZookeeperRequires._on_relation_joined_event\<close>\<close>

text \<open>The conditional expression tests \<^verbatim>\<open>self.extra_user_roles is not None\<close>.\<close>

definition Zookeeper_on_relation_joined_event ::
  "ZookeeperRequires \<Rightarrow> model \<Rightarrow> event \<Rightarrow> error + model" where
  "Zookeeper_on_relation_joined_event self m ev =
     update_relation_data m (ev_relation_id ev)
       (case extra_user_roles self of
          Some roles \<Rightarrow> [(''chroot'', chroot self), (''extra-user-roles'', roles)]
        | None \<Rightarrow> [(''topic'', chroot self)])"

section \<open>Facts about dicts\<close>

lemmas codec_simps =
  loads_flat_def whitespace_def unescape_def quote_def json_of_dict_def dict_update_def
  dict_get_default_def dict_get_def dict_keys_def new_data_def truthy_def

lemma dict_get_update_single: "dict_get (dict_update d [(k, v)]) k = Some v"
  by (simp add: dict_update_def dict_get_def AList.update_conv')

lemma dict_get_update_other:
  "k' \<noteq> k \<Longrightarrow> dict_get (dict_update d [(k, v)]) k' = dict_get d k'"
  by (simp add: dict_update_def dict_get_def AList.update_conv')

lemma dict_get_default_Some: "dict_get d k = Some v \<Longrightarrow> dict_get_default d k dflt = v"
  by (simp add: dict_get_def dict_get_default_def)

lemma dict_get_default_None: "dict_get d k = None \<Longrightarrow> dict_get_default d k dflt = dflt"
  by (simp add: dict_get_def dict_get_default_def)

lemma dict_update_same: "dict_get d k = Some v \<Longrightarrow> dict_update d [(k, v)] = d"
  by (simp add: dict_update_def dict_get_def AList.update_triv)

lemma dict_keys_dom: "dict_keys d = dom (map_of d)"
  by (simp add: dict_keys_def dom_map_of_conv_image_fst)

lemma map_of_json_of: "map_of (map (\<lambda>(k, v). (k, JStr v)) d) k = map_option JStr (map_of d k)"
  by (induction d) auto

lemma dict_keys_json_of: "dict_keys (map (\<lambda>(k, v). (k, JStr v)) d) = dict_keys d"
  by (induction d) (auto simp: dict_keys_def)

section \<open>The diff of the relation data\<close>

lemma diff_Inr:
  assumes "json_loads (dict_get_default (local_unit_data rel) ''data'' ''{}'') = Some (JObj old_data)"
  shows "diff json_loads json_dumps rel =
    Inr (\<lparr>added = dict_keys (new_data rel) - dict_keys old_data,
          changed =
            Set.filter
              (\<lambda>key. map_of old_data key \<noteq> map_option JStr (map_of (new_data rel) key))
              (dict_keys old_data \<inter> dict_keys (new_data rel)),
          deleted = dict_keys old_data - dict_keys (new_data rel)\<rparr>,
         rel\<lparr>local_unit_data :=
           dict_update (local_unit_data rel)
             [(''data'', json_dumps (json_of_dict (new_data rel)))]\<rparr>)"
  using assms by (simp add: diff_def Let_def)

lemma diff_InrD:
  assumes "diff json_loads json_dumps rel = Inr (d, rel')"
  shows "rel' = rel\<lparr>local_unit_data :=
           dict_update (local_unit_data rel)
             [(''data'', json_dumps (json_of_dict (new_data rel)))]\<rparr>"
  using assms by (auto simp: diff_def Let_def split: option.splits json.splits)

text \<open>
  C1. When \<open>diff\<close> has returned for a relation and is called again on a relation whose
  remote application databag is the same and whose stored baseline is the one the first
  call wrote, the second call returns the empty \<open>Diff\<close> (nothing added, changed or
  deleted) and leaves the relation as it is. \<^verbatim>\<open>json.loads\<close> is asked to read back the one
  text that \<^verbatim>\<open>json.dumps\<close> wrote.
\<close>

theorem diff_twice_empty:
  assumes first: "diff json_loads json_dumps rel = Inr (d1, rel1)"
    and rt: "json_roundtrip json_loads json_dumps (json_of_dict (new_data rel))"
    and same: "app_data rel2 = app_data rel"
    and base: "dict_get (local_unit_data rel2) ''data'' = dict_get (local_unit_data rel1) ''data''"
  shows "diff json_loads json_dumps rel2 =
    Inr (\<lparr>added = {}, changed = {}, deleted = {}\<rparr>, rel2)"
proof -
  let ?txt = "json_dumps (json_of_dict (new_data rel))"
  let ?old = "map (\<lambda>(k, v). (k, JStr v)) (new_data rel)"
  have nd: "new_data rel2 = new_data rel"
    using same by (simp add: new_data_def)
  have "dict_get (local_unit_data rel1) ''data'' = Some ?txt"
    using diff_InrD [OF first] by (simp add: dict_get_update_single)
  then have stored: "dict_get (local_unit_data rel2) ''data'' = Some ?txt"
    using base by simp
  then have "json_loads (dict_get_default (local_unit_data rel2) ''data'' ''{}'') = Some (JObj ?old)"
    using rt by (simp add: dict_get_default_Some json_roundtrip_def json_of_dict_def)
  then have "diff json_loads json_dumps rel2 =
    Inr (\<lparr>added = dict_keys (new_data rel2) - dict_keys ?old,
          changed =
            Set.filter
              (\<lambda>key. map_of ?old key \<noteq> map_option JStr (map_of (new_data rel2) key))
              (dict_keys ?old \<inter> dict_keys (new_data rel2)),
          deleted = dict_keys ?old - dict_keys (new_data rel2)\<rparr>,
         rel2\<lparr>local_unit_data :=
           dict_update (local_unit_data rel2)
             [(''data'', json_dumps (json_of_dict (new_data rel2)))]\<rparr>)"
    by (rule diff_Inr)
  then show ?thesis
    using stored by (simp add: nd dict_keys_json_of map_of_json_of dict_update_same)
qed

text \<open>
  At a concrete input, with the reader and writer for flat objects: the first call
  reports both fields as added, the second call reports nothing.
\<close>

theorem diff_twice_empty_witness:
  "diff loads_flat dumps_flat
     \<lparr>rel_id = 1, app_data = [(''username'', ''u''), (''password'', ''p'')],
      local_unit_data = [], local_app_data = []\<rparr> =
   Inr (\<lparr>added = {''username'', ''password''}, changed = {}, deleted = {}\<rparr>,
        \<lparr>rel_id = 1, app_data = [(''username'', ''u''), (''password'', ''p'')],
         local_unit_data =
           [(''data'', dumps_flat (json_of_dict [(''username'', ''u''), (''password'', ''p'')]))],
         local_app_data = []\<rparr>)
   \<and> diff loads_flat dumps_flat
     \<lparr>rel_id = 1, app_data = [(''username'', ''u''), (''password'', ''p'')],
      local_unit_data =
        [(''data'', dumps_flat (json_of_dict [(''username'', ''u''), (''password'', ''p'')]))],
      local_app_data = []\<rparr> =
   Inr (\<lparr>added = {}, changed = {}, deleted = {}\<rparr>,
        \<lparr>rel_id = 1, app_data = [(''username'', ''u''), (''password'', ''p'')],
         local_unit_data =
           [(''data'', dumps_flat (json_of_dict [(''username'', ''u''), (''password'', ''p'')]))],
         local_app_data = []\<rparr>)"
proof -
  let ?rel = "\<lparr>rel_id = 1, app_data = [(''username'', ''u''), (''password'', ''p'')],
      local_unit_data = [], local_app_data = []\<rparr>"
  let ?rel1 = "\<lparr>rel_id = 1, app_data = [(''username'', ''u''), (''password'', ''p'')],
      local_unit_data =
        [(''data'', dumps_flat (json_of_dict [(''username'', ''u''), (''password'', ''p'')]))],
      local_app_data = []\<rparr>"
  have first: "diff loads_flat dumps_flat ?rel =
      Inr (\<lparr>added = {''username'', ''password''}, changed = {}, deleted = {}\<rparr>, ?rel1)"
    by (simp add: diff_def Let_def codec_simps)
  have rt: "json_roundtrip loads_flat dumps_flat (json_of_dict (new_data ?rel))"
    by (simp add: json_roundtrip_def codec_simps)
  have "diff loads_flat dumps_flat ?rel1 =
      Inr (\<lparr>added = {}, changed = {}, deleted = {}\<rparr>, ?rel1)"
    by (rule diff_twice_empty [OF first rt]) simp_all
  with first show ?thesis by simp
qed

lemma map_of_new_data: "map_of (new_data rel) = (map_of (app_data rel))(''data'' := None)"
proof -
  have "map_of (filter (\<lambda>(key, value). key \<noteq> x) al) = (map_of al)(x := None)" for x :: string and al :: databag
    by (induction al) (auto simp: fun_eq_iff)
  then show ?thesis by (simp add: new_data_def)
qed

text \<open>
  C2. Let \<open>prior\<close> be the dict that \<^verbatim>\<open>json.loads\<close> reads from the stored baseline (the
  text \<^verbatim>\<open>{}\<close> when the key \<^verbatim>\<open>data\<close> is missing, which is the empty dict), and let current
  be \<open>new_data\<close>, the remote application databag without the key \<^verbatim>\<open>data\<close>. Then \<open>diff\<close>
  returns, with \<open>added\<close> the keys of current that are not keys of prior, \<open>deleted\<close> the
  keys of prior that are not keys of current, and \<open>changed\<close> the common keys whose values
  differ. The three sets are pairwise disjoint. After the call the text stored under
  \<^verbatim>\<open>data\<close> is the JSON text of current, which \<^verbatim>\<open>json.loads\<close> reads back as current, and
  nothing else of the relation has changed.
\<close>

theorem diff_exact:
  assumes prior: "json_loads (dict_get_default (local_unit_data rel) ''data'' ''{}'') = Some (JObj prior)"
  shows "\<exists>d rel'. diff json_loads json_dumps rel = Inr (d, rel')
     \<and> added d = dom (map_of (new_data rel)) - dom (map_of prior)
     \<and> deleted d = dom (map_of prior) - dom (map_of (new_data rel))
     \<and> changed d = {k \<in> dom (map_of prior) \<inter> dom (map_of (new_data rel)).
          the (map_of prior k) \<noteq> JStr (the (map_of (new_data rel) k))}
     \<and> added d \<inter> changed d = {} \<and> added d \<inter> deleted d = {} \<and> changed d \<inter> deleted d = {}
     \<and> map_of (new_data rel) = (map_of (app_data rel))(''data'' := None)
     \<and> (dict_get (local_unit_data rel) ''data'' = None \<longrightarrow> json_loads ''{}'' = Some (JObj [])
          \<longrightarrow> prior = [])
     \<and> dict_get (local_unit_data rel') ''data'' = Some (json_dumps (json_of_dict (new_data rel)))
     \<and> (json_roundtrip json_loads json_dumps (json_of_dict (new_data rel)) \<longrightarrow>
          json_loads (dict_get_default (local_unit_data rel') ''data'' ''{}'')
            = Some (json_of_dict (new_data rel)))
     \<and> app_data rel' = app_data rel \<and> local_app_data rel' = local_app_data rel \<and> rel_id rel' = rel_id rel"
proof -
  let ?d = "\<lparr>added = dict_keys (new_data rel) - dict_keys prior,
          changed =
            Set.filter
              (\<lambda>key. map_of prior key \<noteq> map_option JStr (map_of (new_data rel) key))
              (dict_keys prior \<inter> dict_keys (new_data rel)),
          deleted = dict_keys prior - dict_keys (new_data rel)\<rparr>"
  let ?rel' = "rel\<lparr>local_unit_data :=
           dict_update (local_unit_data rel)
             [(''data'', json_dumps (json_of_dict (new_data rel)))]\<rparr>"
  have run: "diff json_loads json_dumps rel = Inr (?d, ?rel')"
    using prior by (rule diff_Inr)
  have ch: "changed ?d = {k \<in> dom (map_of prior) \<inter> dom (map_of (new_data rel)).
          the (map_of prior k) \<noteq> JStr (the (map_of (new_data rel) k))}"
    by (auto simp: dict_keys_dom)
  have stored: "dict_get (local_unit_data ?rel') ''data'' = Some (json_dumps (json_of_dict (new_data rel)))"
    by (simp add: dict_get_update_single)
  have missing: "prior = []"
    if "dict_get (local_unit_data rel) ''data'' = None" "json_loads ''{}'' = Some (JObj [])"
    using that prior by (simp add: dict_get_default_None)
  have reread: "json_loads (dict_get_default (local_unit_data ?rel') ''data'' ''{}'')
            = Some (json_of_dict (new_data rel))"
    if "json_roundtrip json_loads json_dumps (json_of_dict (new_data rel))"
    using that stored by (simp add: dict_get_default_Some json_roundtrip_def)
  show ?thesis
    apply (rule exI [of _ ?d], rule exI [of _ ?rel'])
    apply (intro conjI)
    apply (rule run)
    apply (simp add: dict_keys_dom)
    apply (simp add: dict_keys_dom)
    apply (rule ch)
    apply (auto simp: dict_keys_dom)[3]
    apply (rule map_of_new_data)
    using missing apply blast
    apply (rule stored)
    using reread apply blast
    apply simp_all
    done
qed

text \<open>
  Two concrete calls: one with a stored baseline (a field added, one changed, one
  deleted, the key \<^verbatim>\<open>data\<close> of the remote databag ignored), one with no baseline.
\<close>

theorem diff_exact_witness:
  "loads_flat (dict_get_default
      [(''data'', dumps_flat (json_of_dict [(''username'', ''u''), (''password'', ''p'')]))]
      ''data'' ''{}'') = Some (JObj [(''username'', JStr ''u''), (''password'', JStr ''p'')])
   \<and> (\<exists>d rel'. diff loads_flat dumps_flat
         \<lparr>rel_id = 1,
          app_data = [(''username'', ''v''), (''endpoints'', ''h''), (''data'', ''x'')],
          local_unit_data =
            [(''data'', dumps_flat (json_of_dict [(''username'', ''u''), (''password'', ''p'')]))],
          local_app_data = []\<rparr> = Inr (d, rel')
       \<and> added d = {''endpoints''} \<and> changed d = {''username''} \<and> deleted d = {''password''}
       \<and> dict_get (local_unit_data rel') ''data'' =
           Some (dumps_flat (json_of_dict [(''username'', ''v''), (''endpoints'', ''h'')]))
       \<and> loads_flat (dict_get_default (local_unit_data rel') ''data'' ''{}'') =
           Some (json_of_dict [(''username'', ''v''), (''endpoints'', ''h'')]))
   \<and> dict_get ([] :: databag) ''data'' = None \<and> loads_flat ''{}'' = Some (JObj [])
   \<and> (\<exists>d rel'. diff loads_flat dumps_flat
         \<lparr>rel_id = 2, app_data = [(''username'', ''u'')], local_unit_data = [],
          local_app_data = []\<rparr> = Inr (d, rel')
       \<and> added d = {''username''} \<and> changed d = {} \<and> deleted d = {})"
proof -
  let ?base = "[(''data'', dumps_flat (json_of_dict [(''username'', ''u''), (''password'', ''p'')]))]"
  let ?rel = "\<lparr>rel_id = 1,
          app_data = [(''username'', ''v''), (''endpoints'', ''h''), (''data'', ''x'')],
          local_unit_data = ?base, local_app_data = []\<rparr>"
  let ?new = "\<lparr>rel_id = 2, app_data = [(''username'', ''u'')], local_unit_data = [],
          local_app_data = []\<rparr>"
  have h: "loads_flat (dict_get_default (local_unit_data ?rel) ''data'' ''{}'')
      = Some (JObj [(''username'', JStr ''u''), (''password'', JStr ''p'')])"
    by (simp add: codec_simps)
  have nd: "new_data ?rel = [(''username'', ''v''), (''endpoints'', ''h'')]"
    by (simp add: new_data_def)
  have rt: "json_roundtrip loads_flat dumps_flat (json_of_dict (new_data ?rel))"
    by (simp add: json_roundtrip_def codec_simps)
  have e: "loads_flat ''{}'' = Some (JObj [])"
    by (simp add: codec_simps)
  have h0: "loads_flat (dict_get_default (local_unit_data ?new) ''data'' ''{}'') = Some (JObj [])"
    by (simp add: codec_simps)
  have 1: "\<exists>d rel'. diff loads_flat dumps_flat ?rel = Inr (d, rel')
       \<and> added d = {''endpoints''} \<and> changed d = {''username''} \<and> deleted d = {''password''}
       \<and> dict_get (local_unit_data rel') ''data'' =
           Some (dumps_flat (json_of_dict [(''username'', ''v''), (''endpoints'', ''h'')]))
       \<and> loads_flat (dict_get_default (local_unit_data rel') ''data'' ''{}'') =
           Some (json_of_dict [(''username'', ''v''), (''endpoints'', ''h'')])"
    using diff_exact [where json_loads = loads_flat and json_dumps = dumps_flat and rel = ?rel, OF h] rt
    unfolding nd by auto
  have 2: "\<exists>d rel'. diff loads_flat dumps_flat ?new = Inr (d, rel')
       \<and> added d = {''username''} \<and> changed d = {} \<and> deleted d = {}"
    using diff_exact [where json_loads = loads_flat and json_dumps = dumps_flat and rel = ?new, OF h0]
    by (auto simp: new_data_def)
  from h 1 e 2 show ?thesis by (simp add: dict_get_def)
qed

text \<open>
  C8, as the code has it. Only a missing key \<^verbatim>\<open>data\<close> is read as the empty baseline, every
  current field then being reported as added. When the key holds a text that
  \<^verbatim>\<open>json.loads\<close> rejects, the \<^verbatim>\<open>JSONDecodeError\<close> leaves \<open>diff\<close>: the call is not wrapped in
  any handler, and nothing is written.
\<close>

theorem diff_unreadable_baseline:
  "(dict_get (local_unit_data rel) ''data'' = None \<and> json_loads ''{}'' = Some (JObj []) \<longrightarrow>
      diff json_loads json_dumps rel =
        Inr (\<lparr>added = dict_keys (new_data rel), changed = {}, deleted = {}\<rparr>,
             rel\<lparr>local_unit_data :=
               dict_update (local_unit_data rel)
                 [(''data'', json_dumps (json_of_dict (new_data rel)))]\<rparr>))
   \<and> (\<forall>t. dict_get (local_unit_data rel) ''data'' = Some t \<and> json_loads t = None \<longrightarrow>
        diff json_loads json_dumps rel = Inl JSONDecodeError)"
  by (auto simp: diff_def Let_def dict_get_default_None dict_get_default_Some dict_keys_def)

theorem diff_unreadable_baseline_witness:
  "dict_get ([] :: databag) ''data'' = None \<and> loads_flat ''{}'' = Some (JObj [])
   \<and> diff loads_flat dumps_flat
       \<lparr>rel_id = 1, app_data = [(''username'', ''u'')], local_unit_data = [],
        local_app_data = []\<rparr> =
     Inr (\<lparr>added = {''username''}, changed = {}, deleted = {}\<rparr>,
          \<lparr>rel_id = 1, app_data = [(''username'', ''u'')],
           local_unit_data = [(''data'', dumps_flat (json_of_dict [(''username'', ''u'')]))],
           local_app_data = []\<rparr>)
   \<and> dict_get [(''data'', ''not json'')] ''data'' = Some ''not json''
   \<and> loads_flat ''not json'' = None
   \<and> diff loads_flat dumps_flat
       \<lparr>rel_id = 1, app_data = [(''username'', ''u'')],
        local_unit_data = [(''data'', ''not json'')], local_app_data = []\<rparr> =
     Inl JSONDecodeError"
proof -
  let ?new = "\<lparr>rel_id = 1, app_data = [(''username'', ''u'')], local_unit_data = [],
        local_app_data = []\<rparr>"
  let ?rel1 = "\<lparr>rel_id = 1, app_data = [(''username'', ''u'')],
        local_unit_data = [(''data'', ''not json'')], local_app_data = []\<rparr>"
  have a: "dict_get (local_unit_data ?new) ''data'' = None \<and> loads_flat ''{}'' = Some (JObj [])"
    by (simp add: codec_simps)
  have b: "dict_get (local_unit_data ?rel1) ''data'' = Some ''not json'' \<and> loads_flat ''not json'' = None"
    by (simp add: codec_simps)
  from a diff_unreadable_baseline [of ?new loads_flat dumps_flat]
  have 1: "diff loads_flat dumps_flat ?new =
     Inr (\<lparr>added = {''username''}, changed = {}, deleted = {}\<rparr>,
          \<lparr>rel_id = 1, app_data = [(''username'', ''u'')],
           local_unit_data = [(''data'', dumps_flat (json_of_dict [(''username'', ''u'')]))],
           local_app_data = []\<rparr>)"
    by (simp add: new_data_def dict_keys_def dict_update_def)
  from b diff_unreadable_baseline [of ?rel1 loads_flat dumps_flat]
  have 2: "diff loads_flat dumps_flat ?rel1 = Inl JSONDecodeError"
    by blast
  from a b 1 2 show ?thesis by simp
qed

text \<open>
  The stored text \<^verbatim>\<open>not json\<close> is no baseline at all: the call raises instead of
  reporting \<^verbatim>\<open>username\<close> as added.
\<close>

theorem diff_corrupted_counterexample:
  "loads_flat ''not json'' = None \<and>
   diff loads_flat dumps_flat
     \<lparr>rel_id = 1, app_data = [(''username'', ''u'')],
      local_unit_data = [(''data'', ''not json'')], local_app_data = []\<rparr> = Inl JSONDecodeError"
  by (simp add: diff_def codec_simps)

section \<open>Writing the local application databag\<close>

lemma map_of_databag_set:
  "map_of (databag_set k v bag) = (map_of bag)(k := if v = [] then None else Some v)"
  by (simp add: databag_set_def AList.update_conv' AList.delete_conv')

text \<open>
  A write of one key with a value that is not empty is the dict update. Such are the
  writes to the local unit databag: \<^verbatim>\<open>_diff\<close> stores a JSON text and
  \<^verbatim>\<open>_assign_relation_alias\<close> an alias of the pool.
\<close>

lemma databag_update_single:
  "v \<noteq> [] \<Longrightarrow> databag_update bag [(k, v)] = dict_update bag [(k, v)]"
  by (simp add: databag_update_def databag_set_def dict_update_def)

lemma map_of_databag_update:
  "distinct (map fst other) \<Longrightarrow>
     map_of (databag_update bag other) key =
       (case map_of other key of
          None \<Rightarrow> map_of bag key
        | Some value \<Rightarrow> if value = [] then None else Some value)"
  unfolding databag_update_def
proof (induction other arbitrary: bag)
  case Nil
  then show ?case by simp
next
  case (Cons kv other)
  obtain k v where kv: "kv = (k, v)" by (cases kv)
  from Cons.prems kv have fresh: "map_of other k = None" and rest: "distinct (map fst other)"
    by (simp_all add: map_of_eq_None_iff)
  from Cons.IH [OF rest, of "databag_set k v bag"] fresh show ?case
    by (cases "key = k") (simp_all add: kv map_of_databag_set split: option.splits)
qed

lemma map_of_databag_update_no_empty:
  assumes "distinct (map fst other)" and "[] \<notin> snd ` set other"
  shows "map_of (databag_update bag other) = map_of bag ++ map_of other"
proof
  fix key
  from assms(2) have "v \<noteq> []" if "map_of other key = Some v" for v
    using that by (force dest: map_of_SomeD)
  with map_of_databag_update [OF assms(1), of bag key]
  show "map_of (databag_update bag other) key = (map_of bag ++ map_of other) key"
    by (simp add: map_add_def split: option.splits)
qed

lemma find_SomeD: "find P xs = Some x \<Longrightarrow> P x \<and> x \<in> set xs"
  by (induction xs) (auto split: if_splits)

lemma get_relation_id: "get_relation m i = Some r \<Longrightarrow> rel_id r = i"
  by (auto simp: get_relation_def dest: find_SomeD)

lemma get_relation_mem: "get_relation m i = Some r \<Longrightarrow> r \<in> set (relations m)"
  by (auto simp: get_relation_def dest: find_SomeD)

lemma find_replace_relation:
  "find (\<lambda>x. rel_id x = i) (replace_relation r xs) =
     (if i = rel_id r then map_option (\<lambda>_. r) (find (\<lambda>x. rel_id x = i) xs)
      else find (\<lambda>x. rel_id x = i) xs)"
  by (induction xs) auto

lemma get_relation_put_same:
  "get_relation m i = Some r \<Longrightarrow> rel_id r' = i \<Longrightarrow> get_relation (put_relation r' m) i = Some r'"
  by (simp add: get_relation_def put_relation_def find_replace_relation)

lemma get_relation_put_other:
  "i \<noteq> rel_id r' \<Longrightarrow> get_relation (put_relation r' m) i = get_relation m i"
  by (simp add: get_relation_def put_relation_def find_replace_relation)

text \<open>
  C4, as the code has it. On a unit that is not the leader \<open>update_relation_data\<close>
  returns without an error and leaves the model as it is. On the leader, for a relation
  of the model and a dict \<open>data\<close>, it returns a model in which the local application
  databag of that relation has every key of \<open>data\<close> with its value, except that a key
  given with the empty string is removed, and has its other keys as before; so it is the
  old databag overridden by the pairs of \<open>data\<close> when no value of \<open>data\<close> is empty. The
  other databags of the relation, the other relations and the leadership are as before.
\<close>

theorem update_relation_data_leader_only:
  "(\<not> is_leader m \<longrightarrow> update_relation_data m relation_id data = Inr m)
   \<and> (is_leader m \<and> get_relation m relation_id = Some relation \<and> distinct (map fst data) \<longrightarrow>
        (\<exists>m' relation'. update_relation_data m relation_id data = Inr m'
           \<and> get_relation m' relation_id = Some relation'
           \<and> (\<forall>key. map_of (local_app_data relation') key =
                 (case map_of data key of
                    None \<Rightarrow> map_of (local_app_data relation) key
                  | Some value \<Rightarrow> if value = [] then None else Some value))
           \<and> ([] \<notin> snd ` set data \<longrightarrow>
                 map_of (local_app_data relation') = map_of (local_app_data relation) ++ map_of data)
           \<and> app_data relation' = app_data relation
           \<and> local_unit_data relation' = local_unit_data relation
           \<and> (\<forall>other. other \<noteq> relation_id \<longrightarrow> get_relation m' other = get_relation m other)
           \<and> map rel_id (relations m') = map rel_id (relations m)
           \<and> is_leader m' = is_leader m))"
proof (intro conjI impI)
  assume "\<not> is_leader m"
  then show "update_relation_data m relation_id data = Inr m"
    by (simp add: update_relation_data_def)
next
  assume a: "is_leader m \<and> get_relation m relation_id = Some relation \<and> distinct (map fst data)"
  let ?r = "relation\<lparr>local_app_data := databag_update (local_app_data relation) data\<rparr>"
  let ?m = "put_relation ?r m"
  from a have id: "rel_id ?r = relation_id"
    by (auto dest: get_relation_id)
  have ids: "map rel_id (replace_relation r xs) = map rel_id xs" for r xs
    by (induction xs) auto
  have "update_relation_data m relation_id data = Inr ?m"
    using a by (simp add: update_relation_data_def)
  moreover have "get_relation ?m relation_id = Some ?r"
    using a id by (simp add: get_relation_put_same)
  moreover have "\<forall>key. map_of (local_app_data ?r) key =
      (case map_of data key of
         None \<Rightarrow> map_of (local_app_data relation) key
       | Some value \<Rightarrow> if value = [] then None else Some value)"
    using a by (simp add: map_of_databag_update)
  moreover have "[] \<notin> snd ` set data \<longrightarrow>
      map_of (local_app_data ?r) = map_of (local_app_data relation) ++ map_of data"
    using a by (simp add: map_of_databag_update_no_empty)
  moreover have "\<forall>other. other \<noteq> relation_id \<longrightarrow> get_relation ?m other = get_relation m other"
    using id by (simp add: get_relation_put_other)
  moreover have "map rel_id (relations ?m) = map rel_id (relations m)"
    by (simp add: put_relation_def ids)
  moreover have "is_leader ?m = is_leader m"
    by (simp add: put_relation_def)
  ultimately show "\<exists>m' relation'. update_relation_data m relation_id data = Inr m'
           \<and> get_relation m' relation_id = Some relation'
           \<and> (\<forall>key. map_of (local_app_data relation') key =
                 (case map_of data key of
                    None \<Rightarrow> map_of (local_app_data relation) key
                  | Some value \<Rightarrow> if value = [] then None else Some value))
           \<and> ([] \<notin> snd ` set data \<longrightarrow>
                 map_of (local_app_data relation') = map_of (local_app_data relation) ++ map_of data)
           \<and> app_data relation' = app_data relation
           \<and> local_unit_data relation' = local_unit_data relation
           \<and> (\<forall>other. other \<noteq> relation_id \<longrightarrow> get_relation m' other = get_relation m other)
           \<and> map rel_id (relations m') = map rel_id (relations m)
           \<and> is_leader m' = is_leader m"
    by (intro exI [of _ ?m] exI [of _ ?r]) simp
qed

text \<open>
  The same write on a follower and on the leader, and on the leader a write that gives
  one key a value and another the empty string.
\<close>

theorem update_relation_data_leader_only_witness:
  "\<not> is_leader \<lparr>relations = [\<lparr>rel_id = 1, app_data = [], local_unit_data = [],
        local_app_data = [(''database'', ''old'')]\<rparr>], is_leader = False\<rparr>
   \<and> update_relation_data
       \<lparr>relations = [\<lparr>rel_id = 1, app_data = [], local_unit_data = [],
          local_app_data = [(''database'', ''old'')]\<rparr>], is_leader = False\<rparr>
       1 [(''database'', ''db''), (''extra-user-roles'', ''admin'')] =
     Inr \<lparr>relations = [\<lparr>rel_id = 1, app_data = [], local_unit_data = [],
          local_app_data = [(''database'', ''old'')]\<rparr>], is_leader = False\<rparr>
   \<and> distinct (map fst [(''database'', ''db''), (''extra-user-roles'', ''admin'')])
   \<and> [] \<notin> snd ` set [(''database'', ''db''), (''extra-user-roles'', ''admin'')]
   \<and> (\<exists>m' relation'.
        update_relation_data
          \<lparr>relations = [\<lparr>rel_id = 1, app_data = [], local_unit_data = [],
             local_app_data = [(''database'', ''old'')]\<rparr>], is_leader = True\<rparr>
          1 [(''database'', ''db''), (''extra-user-roles'', ''admin'')] = Inr m'
        \<and> get_relation m' 1 = Some relation'
        \<and> map_of (local_app_data relation') =
            [''database'' \<mapsto> ''db'', ''extra-user-roles'' \<mapsto> ''admin''])
   \<and> (\<exists>m' relation'.
        update_relation_data
          \<lparr>relations = [\<lparr>rel_id = 1, app_data = [], local_unit_data = [],
             local_app_data = [(''database'', ''old'')]\<rparr>], is_leader = True\<rparr>
          1 [(''extra-user-roles'', ''admin''), (''database'', [])] = Inr m'
        \<and> get_relation m' 1 = Some relation'
        \<and> map_of (local_app_data relation') ''extra-user-roles'' = Some ''admin''
        \<and> map_of (local_app_data relation') ''database'' = None)"
proof -
  let ?r = "\<lparr>rel_id = 1, app_data = [], local_unit_data = [],
        local_app_data = [(''database'', ''old'')]\<rparr>"
  let ?data = "[(''database'', ''db''), (''extra-user-roles'', ''admin'')]"
  let ?clear = "[(''extra-user-roles'', ''admin''), (''database'', [])]"
  let ?follower = "\<lparr>relations = [?r], is_leader = False\<rparr>"
  let ?leader = "\<lparr>relations = [?r], is_leader = True\<rparr>"
  have f: "\<not> is_leader ?follower" by simp
  have l: "is_leader ?leader \<and> get_relation ?leader 1 = Some ?r \<and> distinct (map fst ?data)"
    by (simp add: get_relation_def)
  have c: "is_leader ?leader \<and> get_relation ?leader 1 = Some ?r \<and> distinct (map fst ?clear)"
    by (simp add: get_relation_def)
  have n: "[] \<notin> snd ` set ?data" by simp
  have m: "map_of (local_app_data ?r) ++ map_of ?data =
      [''database'' \<mapsto> ''db'', ''extra-user-roles'' \<mapsto> ''admin'']"
    by (auto simp: fun_eq_iff map_add_def)
  from f update_relation_data_leader_only [of ?follower 1 ?data ?r]
  have 1: "update_relation_data ?follower 1 ?data = Inr ?follower"
    by blast
  from l n update_relation_data_leader_only [of ?leader 1 ?data ?r]
  have 2: "\<exists>m' relation'. update_relation_data ?leader 1 ?data = Inr m'
        \<and> get_relation m' 1 = Some relation'
        \<and> map_of (local_app_data relation') = map_of (local_app_data ?r) ++ map_of ?data"
    by blast
  from c update_relation_data_leader_only [of ?leader 1 ?clear ?r]
  obtain m' relation' where 3: "update_relation_data ?leader 1 ?clear = Inr m'"
    "get_relation m' 1 = Some relation'"
    "\<forall>key. map_of (local_app_data relation') key =
       (case map_of ?clear key of
          None \<Rightarrow> map_of (local_app_data ?r) key
        | Some value \<Rightarrow> if value = [] then None else Some value)"
    by blast
  from 3(3) have "map_of (local_app_data relation') ''extra-user-roles'' = Some ''admin''"
    and "map_of (local_app_data relation') ''database'' = None"
    by simp_all
  with 3(1,2) have 4: "\<exists>m' relation'. update_relation_data ?leader 1 ?clear = Inr m'
        \<and> get_relation m' 1 = Some relation'
        \<and> map_of (local_app_data relation') ''extra-user-roles'' = Some ''admin''
        \<and> map_of (local_app_data relation') ''database'' = None"
    by blast
  from f 1 l n 2 4 show ?thesis unfolding m by simp
qed

text \<open>
  The pair of \<^verbatim>\<open>database\<close> and the empty string is not merged into the databag: the key
  is removed, and the databag is not the old one overridden by the pair.
\<close>

theorem update_relation_data_empty_value_counterexample:
  "update_relation_data
     \<lparr>relations = [\<lparr>rel_id = 1, app_data = [], local_unit_data = [],
        local_app_data = [(''database'', ''old'')]\<rparr>], is_leader = True\<rparr>
     1 [(''database'', [])] =
   Inr \<lparr>relations = [\<lparr>rel_id = 1, app_data = [], local_unit_data = [],
        local_app_data = []\<rparr>], is_leader = True\<rparr>
   \<and> map_of ([] :: databag) ''database'' = None
   \<and> (map_of [(''database'', ''old'')] ++ map_of [(''database'', [])]) ''database'' = Some []"
  by (simp add: update_relation_data_def get_relation_def put_relation_def databag_update_def
      databag_set_def AList.delete_eq)

section \<open>The relation-joined handler of \<^verbatim>\<open>ZookeeperRequires\<close>\<close>

text \<open>
  C9. With no extra user roles configured, the handler on the leader writes the chroot
  under the key \<^verbatim>\<open>topic\<close>: the local application databag has no key \<^verbatim>\<open>chroot\<close>
  afterwards. The comment in the handler says that this branch sets only the chroot.
\<close>

theorem Zookeeper_joined_without_roles:
  "Zookeeper_on_relation_joined_event
     \<lparr>extra_user_roles = None, chroot = ''/app''\<rparr>
     \<lparr>relations = [\<lparr>rel_id = 1, app_data = [], local_unit_data = [], local_app_data = []\<rparr>],
      is_leader = True\<rparr>
     \<lparr>ev_relation_id = 1, ev_app = ''zookeeper'', ev_unit = Some ''zookeeper/0''\<rparr> =
   Inr \<lparr>relations = [\<lparr>rel_id = 1, app_data = [], local_unit_data = [],
           local_app_data = [(''topic'', ''/app'')]\<rparr>],
        is_leader = True\<rparr>
   \<and> dict_get [(''topic'', ''/app'')] ''chroot'' = None"
  by (simp add: Zookeeper_on_relation_joined_event_def update_relation_data_def get_relation_def
      put_relation_def databag_update_def databag_set_def dict_get_def)

section \<open>The constructor of \<^verbatim>\<open>DatabaseRequires\<close>\<close>

text \<open>
  C7, as the code has it. The constructor raises \<^verbatim>\<open>ValueError\<close> exactly when a non-empty
  list of aliases is given whose length is not the declared limit of the relation (a
  relation with no declared limit has none that a length could equal). The empty list
  counts as no aliases.
\<close>

theorem init_ValueError_iff:
  "DatabaseRequires_init events limit database_name roles aliases_opt = Inl ValueError \<longleftrightarrow>
     (\<exists>aliases. aliases_opt = Some aliases \<and> aliases \<noteq> []
        \<and> Some (int (length aliases)) \<noteq> limit)"
proof -
  have 1: "define_event k evs \<noteq> Inl ValueError" for k evs
    by (simp add: define_event_def)
  have 2: "define_alias_events as evs \<noteq> Inl ValueError" for as evs
    by (induction as arbitrary: evs) (auto simp: define_event_def split: sum.splits)
  show ?thesis
    using 2 by (auto simp: DatabaseRequires_init_def Let_def split: option.splits sum.splits)
qed

text \<open>One alias, two aliases and no aliases for a limit of two; one alias and no limit.\<close>

theorem init_ValueError_iff_witness:
  "DatabaseRequires_init DatabaseEvents (Some 2) ''data_platform'' None (Some [''cluster1''])
     = Inl ValueError
   \<and> DatabaseRequires_init DatabaseEvents (Some 2) ''data_platform'' None
       (Some [''cluster1'', ''cluster2'']) \<noteq> Inl ValueError
   \<and> DatabaseRequires_init DatabaseEvents (Some 2) ''data_platform'' None None \<noteq> Inl ValueError
   \<and> DatabaseRequires_init DatabaseEvents None ''data_platform'' None (Some [''cluster1''])
     = Inl ValueError"
  using init_ValueError_iff [of DatabaseEvents "Some 2" "''data_platform''" None "Some [''cluster1'']"]
    init_ValueError_iff [of DatabaseEvents "Some 2" "''data_platform''" None "Some [''cluster1'', ''cluster2'']"]
    init_ValueError_iff [of DatabaseEvents "Some 2" "''data_platform''" None None]
    init_ValueError_iff [of DatabaseEvents None "''data_platform''" None "Some [''cluster1'']"]
  by simp

text \<open>The empty list has a length other than the limit 2, and the constructor returns.\<close>

theorem init_empty_aliases_counterexample:
  "int (length ([] :: string list)) \<noteq> 2
   \<and> DatabaseRequires_init DatabaseEvents (Some 2) ''data_platform'' None (Some []) =
     Inr \<lparr>extra_user_roles = None, database = ''data_platform'', relations_aliases = Some [],
          on_events = DatabaseEvents\<rparr>"
  by (simp add: DatabaseRequires_init_def)

section \<open>The assignment of aliases\<close>


lemma subset_remove1:
  assumes "set cs \<subseteq> set av" "c \<notin> set cs"
  shows "set cs \<subseteq> set (remove1 c av)"
proof
  fix x
  assume x: "x \<in> set cs"
  with assms have "x \<noteq> c" "x \<in> set av" by auto
  then show "x \<in> set (remove1 c av)"
    by (simp add: in_set_remove1)
qed

lemma filter_remove1_distinct:
  "distinct av \<Longrightarrow> filter P (remove1 c av) = filter (\<lambda>a. a \<noteq> c \<and> P a) av"
proof (induction av)
  case Nil
  then show ?case by simp
next
  case (Cons x av)
  show ?case
  proof (cases "x = c")
    case True
    with Cons.prems have "c \<notin> set av" by simp
    then have "filter (\<lambda>a. a \<noteq> c \<and> P a) av = filter P av"
      by (intro filter_cong) auto
    with True show ?thesis by simp
  next
    case False
    with Cons show ?thesis by simp
  qed
qed

lemma remove_assigned_fold:
  "distinct (assigned_aliases rs) \<Longrightarrow> set (assigned_aliases rs) \<subseteq> set av \<Longrightarrow>
     remove_assigned rs av = Inr (fold remove1 (assigned_aliases rs) av)"
proof (induction rs arbitrary: av)
  case Nil
  then show ?case by simp
next
  case (Cons r rs)
  show ?case
  proof (cases "dict_get (local_unit_data r) ''alias''")
    case None
    with Cons show ?thesis by simp
  next
    case (Some a)
    show ?thesis
    proof (cases "a = []")
      case True
      with Some Cons show ?thesis by simp
    next
      case False
      with Some Cons.prems have a: "a \<in> set av" "a \<notin> set (assigned_aliases rs)"
        "distinct (assigned_aliases rs)" "set (assigned_aliases rs) \<subseteq> set av"
        by auto
      then have "set (assigned_aliases rs) \<subseteq> set (remove1 a av)"
        by (simp add: subset_remove1)
      with Cons.IH [of "remove1 a av"] a Some False show ?thesis by simp
    qed
  qed
qed

lemma length_fold_remove1:
  "distinct cs \<Longrightarrow> set cs \<subseteq> set av \<Longrightarrow> length (fold remove1 cs av) = length av - length cs"
proof (induction cs arbitrary: av)
  case Nil
  then show ?case by simp
next
  case (Cons c cs)
  then have "set cs \<subseteq> set (remove1 c av)"
    by (simp add: subset_remove1)
  with Cons show ?case
    by (simp add: length_remove1)
qed

lemma fold_remove1_filter:
  "distinct av \<Longrightarrow> fold remove1 cs av = filter (\<lambda>a. a \<notin> set cs) av"
proof (induction cs arbitrary: av)
  case Nil
  then show ?case by simp
next
  case (Cons c cs)
  from Cons.prems have "filter (\<lambda>a. a \<notin> set cs) (remove1 c av) =
      filter (\<lambda>a. a \<noteq> c \<and> a \<notin> set cs) av"
    by (rule filter_remove1_distinct)
  with Cons show ?case by simp
qed

lemma length_assigned_le: "length (assigned_aliases rs) \<le> length rs"
  by (induction rs) (auto split: option.splits)

lemma length_assigned_less:
  "r \<in> set rs \<Longrightarrow> \<not> truthy (dict_get (local_unit_data r) ''alias'') \<Longrightarrow>
     length (assigned_aliases rs) < length rs"
proof (induction rs)
  case Nil
  then show ?case by simp
next
  case (Cons x rs)
  show ?case
  proof (cases "r = x")
    case True
    with Cons.prems length_assigned_le [of rs] show ?thesis
      by (auto simp: truthy_def split: option.splits)
  next
    case False
    with Cons show ?thesis
      by (auto split: option.splits)
  qed
qed

text \<open>
  C10. Let a pool be configured, let the relation be one of the model, let there be no
  more relations than aliases in the pool, and let the aliases that the relations hold
  be distinct members of the pool. Then every removal in the loop succeeds, the list of
  remaining aliases is not empty when its first element is taken (that is, unless the
  relation already has an alias and the function has returned before), and
  \<open>assign_relation_alias\<close> returns without an error.
\<close>

theorem assign_relation_alias_total:
  assumes pool: "relations_aliases self = Some aliases"
    and rel: "get_relation m relation_id = Some relation"
    and limit: "length (relations m) \<le> length aliases"
    and dist: "distinct (assigned_aliases (relations m))"
    and mem: "set (assigned_aliases (relations m)) \<subseteq> set aliases"
  shows "(\<exists>available. remove_assigned (relations m) aliases = Inr available
           \<and> (truthy (dict_get (local_unit_data relation) ''alias'') \<or> available \<noteq> []))
         \<and> (\<exists>m'. assign_relation_alias self m relation_id = Inr m')"
proof -
  let ?av = "fold remove1 (assigned_aliases (relations m)) aliases"
  have run: "remove_assigned (relations m) aliases = Inr ?av"
    using dist mem by (rule remove_assigned_fold)
  have len: "length ?av = length aliases - length (assigned_aliases (relations m))"
    using dist mem by (rule length_fold_remove1)
  have ne: "?av \<noteq> []" if "\<not> truthy (dict_get (local_unit_data relation) ''alias'')"
  proof -
    from rel have "relation \<in> set (relations m)"
      by (rule get_relation_mem)
    from this that have "length (assigned_aliases (relations m)) < length (relations m)"
      by (rule length_assigned_less)
    with limit len have "0 < length ?av" by simp
    then show ?thesis by simp
  qed
  have "\<exists>m'. assign_relation_alias self m relation_id = Inr m'"
  proof (cases "truthy (dict_get (local_unit_data relation) ''alias'')")
    case True
    with pool rel show ?thesis
      by (simp add: assign_relation_alias_def)
  next
    case False
    with ne obtain a rest where "?av = a # rest"
      by (cases ?av) auto
    with pool rel run False show ?thesis
      by (simp add: assign_relation_alias_def)
  qed
  with run ne show ?thesis by blast
qed

text \<open>A pool of two, the first alias taken by relation 1, relation 2 asking.\<close>

theorem assign_relation_alias_total_witness:
  "get_relation
     \<lparr>relations =
        [\<lparr>rel_id = 1, app_data = [], local_unit_data = [(''alias'', ''cluster1'')],
          local_app_data = []\<rparr>,
         \<lparr>rel_id = 2, app_data = [], local_unit_data = [], local_app_data = []\<rparr>],
      is_leader = True\<rparr> 2 =
     Some \<lparr>rel_id = 2, app_data = [], local_unit_data = [], local_app_data = []\<rparr>
   \<and> assigned_aliases
       [\<lparr>rel_id = 1, app_data = [], local_unit_data = [(''alias'', ''cluster1'')],
         local_app_data = []\<rparr>,
        \<lparr>rel_id = 2, app_data = [], local_unit_data = [], local_app_data = []\<rparr>] = [''cluster1'']
   \<and> remove_assigned
       [\<lparr>rel_id = 1, app_data = [], local_unit_data = [(''alias'', ''cluster1'')],
         local_app_data = []\<rparr>,
        \<lparr>rel_id = 2, app_data = [], local_unit_data = [], local_app_data = []\<rparr>]
       [''cluster1'', ''cluster2''] = Inr [''cluster2'']
   \<and> (\<exists>m'. assign_relation_alias
         \<lparr>extra_user_roles = None, database = ''data_platform'',
          relations_aliases = Some [''cluster1'', ''cluster2''], on_events = DatabaseEvents\<rparr>
         \<lparr>relations =
            [\<lparr>rel_id = 1, app_data = [], local_unit_data = [(''alias'', ''cluster1'')],
              local_app_data = []\<rparr>,
             \<lparr>rel_id = 2, app_data = [], local_unit_data = [], local_app_data = []\<rparr>],
          is_leader = True\<rparr> 2 = Inr m')"
proof -
  let ?r1 = "\<lparr>rel_id = 1, app_data = [], local_unit_data = [(''alias'', ''cluster1'')],
          local_app_data = []\<rparr>"
  let ?r2 = "\<lparr>rel_id = 2, app_data = [], local_unit_data = [], local_app_data = []\<rparr>"
  let ?m = "\<lparr>relations = [?r1, ?r2], is_leader = True\<rparr>"
  let ?self = "\<lparr>extra_user_roles = None, database = ''data_platform'',
          relations_aliases = Some [''cluster1'', ''cluster2''], on_events = DatabaseEvents\<rparr>"
  have pool: "relations_aliases ?self = Some [''cluster1'', ''cluster2'']" by simp
  have rel: "get_relation ?m 2 = Some ?r2" by (simp add: get_relation_def)
  have claimed: "assigned_aliases (relations ?m) = [''cluster1'']" by (simp add: dict_get_def)
  have limit: "length (relations ?m) \<le> length [''cluster1'', ''cluster2'']" by simp
  have dist: "distinct (assigned_aliases (relations ?m))" by (simp add: dict_get_def)
  have mem: "set (assigned_aliases (relations ?m)) \<subseteq> set [''cluster1'', ''cluster2'']"
    by (simp add: dict_get_def)
  have run: "remove_assigned (relations ?m) [''cluster1'', ''cluster2''] = Inr [''cluster2'']"
    by (simp add: dict_get_def)
  from assign_relation_alias_total [OF pool rel limit dist mem]
  have "\<exists>m'. assign_relation_alias ?self ?m 2 = Inr m'" by blast
  with rel claimed run show ?thesis by simp
qed

subsection \<open>What the constructor guarantees\<close>

lemma define_event_InrD:
  "define_event k evs = Inr evs' \<Longrightarrow> k \<notin> set evs \<and> evs' = evs @ [k]"
  by (auto simp: define_event_def split: if_splits)

lemma define_alias_events_InrD:
  "define_alias_events as evs = Inr evs' \<Longrightarrow>
     evs' = evs @ concat (map alias_events as)
     \<and> distinct (concat (map alias_events as))
     \<and> set evs \<inter> set (concat (map alias_events as)) = {}"
proof (induction as arbitrary: evs)
  case Nil
  then show ?case by simp
next
  case (Cons a as)
  from Cons.prems obtain e1 e2 e3 where
    1: "define_event (a @ ''_database_created'') evs = Inr e1" and
    2: "define_event (a @ ''_endpoints_changed'') e1 = Inr e2" and
    3: "define_event (a @ ''_read_only_endpoints_changed'') e2 = Inr e3" and
    rest: "define_alias_events as e3 = Inr evs'"
    by (auto split: sum.splits)
  from 1 2 3 have e3: "e3 = evs @ alias_events a"
    and new: "distinct (alias_events a)" "set evs \<inter> set (alias_events a) = {}"
    by (auto simp: alias_events_def dest!: define_event_InrD)
  from Cons.IH [OF rest] e3 new show ?case
    by auto
qed

lemma distinct_aliases:
  "distinct (concat (map alias_events as)) \<Longrightarrow> distinct as"
proof (induction as)
  case Nil
  then show ?case by simp
next
  case (Cons a as)
  have "a \<notin> set as"
  proof
    assume "a \<in> set as"
    then have "a @ ''_database_created'' \<in> set (concat (map alias_events as))"
      by (auto simp: alias_events_def)
    moreover have "a @ ''_database_created'' \<in> set (alias_events a)"
      by (simp add: alias_events_def)
    ultimately show False using Cons.prems by auto
  qed
  with Cons show ?case by simp
qed

lemma init_InrD:
  assumes "DatabaseRequires_init events limit database_name roles aliases_opt = Inr self"
  shows "relations_aliases self = aliases_opt"
    and "aliases_opt = Some aliases \<Longrightarrow>
           on_events self = events @ concat (map alias_events aliases)
           \<and> distinct (concat (map alias_events aliases))
           \<and> set events \<inter> set (concat (map alias_events aliases)) = {}"
proof -
  show "relations_aliases self = aliases_opt"
    using assms
    by (auto simp: DatabaseRequires_init_def Let_def split: option.splits if_splits sum.splits)
  assume some: "aliases_opt = Some aliases"
  show "on_events self = events @ concat (map alias_events aliases)
           \<and> distinct (concat (map alias_events aliases))
           \<and> set events \<inter> set (concat (map alias_events aliases)) = {}"
  proof (cases "aliases = []")
    case True
    with assms some show ?thesis
      by (auto simp: DatabaseRequires_init_def Let_def)
  next
    case False
    with assms some obtain events' where
      d: "define_alias_events aliases events = Inr events'" and s: "on_events self = events'"
      by (auto simp: DatabaseRequires_init_def Let_def split: if_splits sum.splits)
    from define_alias_events_InrD [OF d] s show ?thesis by simp
  qed
qed

lemma get_relation_alias_put:
  "get_relation m i = Some r \<Longrightarrow> rel_id r' = i \<Longrightarrow>
     get_relation_alias (put_relation r' m) i = dict_get (local_unit_data r') ''alias''"
  by (simp add: get_relation_def get_relation_alias_def put_relation_def find_replace_relation)



section \<open>The relation-changed handler of \<^verbatim>\<open>DatabaseRequires\<close>\<close>

subsection \<open>The names of the events of different kinds\<close>

lemma alias_event_mem:
  "kind \<in> set DatabaseEvents \<Longrightarrow> a @ ''_'' @ kind \<in> set (alias_events a)"
  by (auto simp: DatabaseEvents_def alias_events_def)

lemma distinct_concat_map_disjoint:
  "distinct (concat (map f xs)) \<Longrightarrow> x \<in> set xs \<Longrightarrow> y \<in> set xs \<Longrightarrow> x \<noteq> y \<Longrightarrow>
     set (f x) \<inter> set (f y) = {}"
  by (induction xs) auto

lemma init_pool:
  assumes "DatabaseRequires_init events limit database_name roles aliases_opt = Inr self"
  shows "on_events self = events @ concat (map alias_events (pool self))"
    and "distinct (concat (map alias_events (pool self)))"
    and "set events \<inter> set (concat (map alias_events (pool self))) = {}"
proof -
  have "on_events self = events @ concat (map alias_events (pool self))
      \<and> distinct (concat (map alias_events (pool self)))
      \<and> set events \<inter> set (concat (map alias_events (pool self))) = {}"
  proof (cases aliases_opt)
    case None
    with assms show ?thesis
      by (auto simp: DatabaseRequires_init_def pool_def)
  next
    case (Some aliases)
    with init_InrD [OF assms] show ?thesis
      by (simp add: pool_def)
  qed
  then show "on_events self = events @ concat (map alias_events (pool self))"
    and "distinct (concat (map alias_events (pool self)))"
    and "set events \<inter> set (concat (map alias_events (pool self))) = {}"
    by simp_all
qed

lemma kind_events_disjoint:
  assumes init: "DatabaseRequires_init events limit database_name roles aliases_opt = Inr self"
    and base: "set DatabaseEvents \<subseteq> set events"
    and k: "k \<in> set DatabaseEvents" "k' \<in> set DatabaseEvents" "k \<noteq> k'"
  shows "set (kind_events self k) \<inter> set (kind_events self k') = {}"
proof -
  note p = init_pool [OF init]
  have new: "a @ ''_'' @ kind \<notin> set events" if "a \<in> set (pool self)" "kind \<in> set DatabaseEvents" for a kind
  proof -
    from that have "a @ ''_'' @ kind \<in> set (concat (map alias_events (pool self)))"
      using alias_event_mem [of kind a] by auto
    with p(3) show ?thesis by auto
  qed
  have apart: "a @ ''_'' @ k \<noteq> b @ ''_'' @ k'" if "a \<in> set (pool self)" "b \<in> set (pool self)" for a b
  proof (cases "a = b")
    case True
    with k(3) show ?thesis by simp
  next
    case False
    with p(2) that have "set (alias_events a) \<inter> set (alias_events b) = {}"
      by (rule distinct_concat_map_disjoint)
    with alias_event_mem [OF k(1), of a] alias_event_mem [OF k(2), of b] show ?thesis
      by auto
  qed
  from k(1,2) base have "k \<in> set events" "k' \<in> set events" by auto
  with new k apart show ?thesis
    by (auto simp: kind_events_def)
qed

lemma held_alias_in_pool:
  "r \<in> set rs \<Longrightarrow> dict_get (local_unit_data r) ''alias'' = Some a \<Longrightarrow> a \<noteq> [] \<Longrightarrow>
     a \<in> set (assigned_aliases rs)"
  by (induction rs) (auto split: option.splits)

lemma diff_keeps_alias:
  "diff json_loads json_dumps rel = Inr (d, rel') \<Longrightarrow>
     dict_get (local_unit_data rel') ''alias'' = dict_get (local_unit_data rel) ''alias''
     \<and> rel_id rel' = rel_id rel"
  by (auto dest!: diff_InrD simp: dict_get_update_other)

subsection \<open>The branches of the handler\<close>

text \<open>What one branch of the handler emits.\<close>

lemma emit_both_cases:
  assumes "emit_both self m ev kind = (m', ems, err)"
  shows "m' = m \<and>
    (case get_relation_alias m (ev_relation_id ev) of
       None \<Rightarrow> ems = [emit kind ev] \<and> err = None
     | Some a \<Rightarrow>
         if a = [] then ems = [emit kind ev] \<and> err = None
         else if a @ ''_'' @ kind \<in> set (on_events self)
           then ems = [emit kind ev, emit (a @ ''_'' @ kind) ev] \<and> err = None
         else ems = [emit kind ev] \<and> err = Some AttributeError)"
  using assms
  by (auto simp: emit_both_def emit_aliased_event_def split: option.splits if_splits)

lemma handler_created:
  assumes "get_relation m (ev_relation_id ev) = Some relation"
    and "diff json_loads json_dumps relation = Inr (d, relation')"
    and "''username'' \<in> added d \<and> ''password'' \<in> added d"
  shows "on_relation_changed_event json_loads json_dumps self m ev =
     emit_both self (put_relation relation' m) ev ''database_created''"
  using assms by (simp add: on_relation_changed_event_def Let_def)

lemma handler_endpoints:
  assumes "get_relation m (ev_relation_id ev) = Some relation"
    and "diff json_loads json_dumps relation = Inr (d, relation')"
    and "\<not> (''username'' \<in> added d \<and> ''password'' \<in> added d)"
    and "''endpoints'' \<in> added d \<or> ''endpoints'' \<in> changed d"
  shows "on_relation_changed_event json_loads json_dumps self m ev =
     emit_both self (put_relation relation' m) ev ''endpoints_changed''"
  using assms by (auto simp: on_relation_changed_event_def Let_def)

lemma handler_read_only_endpoints:
  assumes "get_relation m (ev_relation_id ev) = Some relation"
    and "diff json_loads json_dumps relation = Inr (d, relation')"
    and "\<not> (''username'' \<in> added d \<and> ''password'' \<in> added d)"
    and "\<not> (''endpoints'' \<in> added d \<or> ''endpoints'' \<in> changed d)"
    and "''read-only-endpoints'' \<in> added d \<or> ''read-only-endpoints'' \<in> changed d"
  shows "on_relation_changed_event json_loads json_dumps self m ev =
     emit_both self (put_relation relation' m) ev ''read_only_endpoints_changed''"
  using assms by (auto simp: on_relation_changed_event_def Let_def)

lemma handler_nothing:
  assumes "get_relation m (ev_relation_id ev) = Some relation"
    and "diff json_loads json_dumps relation = Inr (d, relation')"
    and "\<not> (''username'' \<in> added d \<and> ''password'' \<in> added d)"
    and "\<not> (''endpoints'' \<in> added d \<or> ''endpoints'' \<in> changed d)"
    and "\<not> (''read-only-endpoints'' \<in> added d \<or> ''read-only-endpoints'' \<in> changed d)"
  shows "on_relation_changed_event json_loads json_dumps self m ev =
     (put_relation relation' m, [], None)"
  using assms by (auto simp: on_relation_changed_event_def Let_def)

lemma alias_after_diff:
  assumes rel: "get_relation m (ev_relation_id ev) = Some relation"
    and d: "diff json_loads json_dumps relation = Inr (d, relation')"
  shows "get_relation_alias (put_relation relation' m) (ev_relation_id ev) =
     dict_get (local_unit_data relation) ''alias''"
proof -
  from diff_keeps_alias [OF d] get_relation_id [OF rel]
  have "rel_id relation' = ev_relation_id ev"
    and "dict_get (local_unit_data relation') ''alias'' = dict_get (local_unit_data relation) ''alias''"
    by simp_all
  with rel show ?thesis
    by (simp add: get_relation_alias_put)
qed

text \<open>
  Under the constructor's guarantees and with the held aliases in the pool, a branch
  for one kind emits the default event, then the aliased one exactly when the relation
  has an alias, and never an event of another kind.
\<close>

lemma emit_both_shape:
  assumes init: "DatabaseRequires_init events limit database_name roles aliases_opt = Inr self"
    and held: "set (assigned_aliases (relations m)) \<subseteq> set (pool self)"
    and rel: "get_relation m (ev_relation_id ev) = Some relation"
    and d: "diff json_loads json_dumps relation = Inr (d, relation')"
    and kind: "kind \<in> set DatabaseEvents"
    and run: "emit_both self (put_relation relation' m) ev kind = (m', ems, err)"
  shows "err = None \<and>
     (if truthy (dict_get (local_unit_data relation) ''alias'')
        then the (dict_get (local_unit_data relation) ''alias'') \<in> set (pool self)
          \<and> ems = [emit kind ev,
                    emit (the (dict_get (local_unit_data relation) ''alias'') @ ''_'' @ kind) ev]
      else ems = [emit kind ev])"
proof (cases "truthy (dict_get (local_unit_data relation) ''alias'')")
  case False
  with emit_both_cases [OF run] alias_after_diff [OF rel d] show ?thesis
    by (auto simp: truthy_def split: option.splits if_splits)
next
  case True
  then obtain a where a: "dict_get (local_unit_data relation) ''alias'' = Some a" "a \<noteq> []"
    by (auto simp: truthy_def split: option.splits)
  from get_relation_mem [OF rel] a have "a \<in> set (assigned_aliases (relations m))"
    by (rule held_alias_in_pool)
  with held have p: "a \<in> set (pool self)" by auto
  with alias_event_mem [OF kind, of a] have "a @ ''_'' @ kind \<in> set (on_events self)"
    unfolding init_pool(1) [OF init] by auto
  with emit_both_cases [OF run] alias_after_diff [OF rel d] a p True show ?thesis
    by simp
qed

lemma fired_shape:
  assumes init: "DatabaseRequires_init events limit database_name roles aliases_opt = Inr self"
    and base: "set DatabaseEvents \<subseteq> set events"
    and kind: "kind \<in> set DatabaseEvents"
    and ems: "ems = [emit kind ev] \<or> (\<exists>a \<in> set (pool self). ems = [emit kind ev, emit (a @ ''_'' @ kind) ev])"
  shows "fired self kind ems"
    and "k' \<in> set DatabaseEvents \<Longrightarrow> k' \<noteq> kind \<Longrightarrow> \<not> fired self k' ems"
proof -
  from ems have names: "set (map em_name ems) \<subseteq> set (kind_events self kind)"
    and first: "kind \<in> set (map em_name ems)"
    by (auto simp: emit_def kind_events_def)
  from first show "fired self kind ems"
    by (auto simp: fired_def kind_events_def)
  assume "k' \<in> set DatabaseEvents" "k' \<noteq> kind"
  with kind_events_disjoint [OF init base kind, of k']
  have "set (kind_events self kind) \<inter> set (kind_events self k') = {}"
    by simp
  with names show "\<not> fired self k' ems"
    by (auto simp: fired_def)
qed

lemma emit_both_spec:
  assumes "err = None \<and>
     (if truthy (dict_get (local_unit_data relation) ''alias'')
        then the (dict_get (local_unit_data relation) ''alias'') \<in> set (pool self)
          \<and> ems = [emit kind ev,
                    emit (the (dict_get (local_unit_data relation) ''alias'') @ ''_'' @ kind) ev]
      else ems = [emit kind ev])"
  shows "ems = spec_publish relation ev kind"
    and "ems = [emit kind ev] \<or> (\<exists>a \<in> set (pool self). ems = [emit kind ev, emit (a @ ''_'' @ kind) ev])"
    and "err = None"
  using assms
  by (auto simp: spec_publish_def truthy_def split: option.splits if_splits)

text \<open>
  C3. For an object that the constructor has returned (the events class having the
  three default events), a model in which the aliases that the relations hold are
  aliases of the pool, and a relation-changed event for a relation of the model: when
  \<open>diff\<close> raises, nothing is emitted; otherwise, if \<^verbatim>\<open>username\<close> and \<^verbatim>\<open>password\<close> are both
  added, only the kind \<^verbatim>\<open>database_created\<close> fires, whatever else has changed; else if
  \<^verbatim>\<open>endpoints\<close> is added or changed, only \<^verbatim>\<open>endpoints_changed\<close> fires; else if
  \<^verbatim>\<open>read-only-endpoints\<close> is added or changed, only \<^verbatim>\<open>read_only_endpoints_changed\<close> fires;
  else nothing is emitted.
\<close>

theorem relation_changed_one_kind:
  assumes init: "DatabaseRequires_init events limit database_name roles aliases_opt = Inr self"
    and base: "set DatabaseEvents \<subseteq> set events"
    and held: "set (assigned_aliases (relations m)) \<subseteq> set (pool self)"
    and rel: "get_relation m (ev_relation_id ev) = Some relation"
    and run: "on_relation_changed_event json_loads json_dumps self m ev = (m', ems, err)"
  shows "case diff json_loads json_dumps relation of
           Inl e \<Rightarrow> ems = []
         | Inr (d, relation') \<Rightarrow>
             (if ''username'' \<in> added d \<and> ''password'' \<in> added d then
                fired self ''database_created'' ems
                \<and> \<not> fired self ''endpoints_changed'' ems
                \<and> \<not> fired self ''read_only_endpoints_changed'' ems
              else if ''endpoints'' \<in> added d \<or> ''endpoints'' \<in> changed d then
                \<not> fired self ''database_created'' ems
                \<and> fired self ''endpoints_changed'' ems
                \<and> \<not> fired self ''read_only_endpoints_changed'' ems
              else if ''read-only-endpoints'' \<in> added d \<or> ''read-only-endpoints'' \<in> changed d then
                \<not> fired self ''database_created'' ems
                \<and> \<not> fired self ''endpoints_changed'' ems
                \<and> fired self ''read_only_endpoints_changed'' ems
              else ems = [])"
proof (cases "diff json_loads json_dumps relation")
  case (Inl e)
  with rel run show ?thesis
    by (simp add: on_relation_changed_event_def)
next
  case (Inr p)
  obtain d relation' where p: "p = (d, relation')" by (cases p)
  with Inr have d: "diff json_loads json_dumps relation = Inr (d, relation')" by simp
  have one: "fired self kind ems \<and> (\<forall>k' \<in> set DatabaseEvents. k' \<noteq> kind \<longrightarrow> \<not> fired self k' ems)"
    if "kind \<in> set DatabaseEvents"
      and "emit_both self (put_relation relation' m) ev kind = (m', ems, err)" for kind
  proof -
    note shape = emit_both_spec(2) [OF emit_both_shape [OF init held rel d that]]
    from fired_shape [OF init base that(1) shape] show ?thesis by blast
  qed
  have kinds: "''database_created'' \<in> set DatabaseEvents" "''endpoints_changed'' \<in> set DatabaseEvents"
    "''read_only_endpoints_changed'' \<in> set DatabaseEvents"
    by (simp_all add: DatabaseEvents_def)
  show ?thesis
  proof (cases "''username'' \<in> added d \<and> ''password'' \<in> added d")
    case True
    with run handler_created [OF rel d, of self]
    have "emit_both self (put_relation relation' m) ev ''database_created'' = (m', ems, err)"
      by simp
    from one [OF kinds(1) this] kinds True d show ?thesis by auto
  next
    case created: False
    show ?thesis
    proof (cases "''endpoints'' \<in> added d \<or> ''endpoints'' \<in> changed d")
      case True
      with run handler_endpoints [OF rel d created, of self]
      have "emit_both self (put_relation relation' m) ev ''endpoints_changed'' = (m', ems, err)"
        by simp
      from one [OF kinds(2) this] kinds True created d show ?thesis by auto
    next
      case endpoints: False
      show ?thesis
      proof (cases "''read-only-endpoints'' \<in> added d \<or> ''read-only-endpoints'' \<in> changed d")
        case True
        with run handler_read_only_endpoints [OF rel d created endpoints, of self]
        have "emit_both self (put_relation relation' m) ev ''read_only_endpoints_changed'' = (m', ems, err)"
          by simp
        from one [OF kinds(3) this] kinds True created endpoints d show ?thesis by auto
      next
        case False
        with run handler_nothing [OF rel d created endpoints, of self] created endpoints d
        show ?thesis by auto
      qed
    qed
  qed
qed

text \<open>
  A new relation that gets credentials and endpoints at once, and a known relation whose
  endpoints and read-only endpoints both change.
\<close>

theorem relation_changed_one_kind_witness:
  "\<exists>self. DatabaseRequires_init DatabaseEvents (Some 2) ''data_platform'' None
        (Some [''cluster1'', ''cluster2'']) = Inr self
     \<and> (\<exists>m' ems err.
          on_relation_changed_event loads_flat dumps_flat self
            \<lparr>relations =
               [\<lparr>rel_id = 1,
                 app_data = [(''username'', ''u''), (''password'', ''p''),
                             (''endpoints'', ''h1''), (''read-only-endpoints'', ''h2'')],
                 local_unit_data = [(''alias'', ''cluster1'')], local_app_data = []\<rparr>],
             is_leader = True\<rparr>
            \<lparr>ev_relation_id = 1, ev_app = ''database'', ev_unit = None\<rparr> = (m', ems, err)
          \<and> fired self ''database_created'' ems
          \<and> \<not> fired self ''endpoints_changed'' ems
          \<and> \<not> fired self ''read_only_endpoints_changed'' ems)
     \<and> (\<exists>m' ems err.
          on_relation_changed_event loads_flat dumps_flat self
            \<lparr>relations =
               [\<lparr>rel_id = 1,
                 app_data = [(''endpoints'', ''h3''), (''read-only-endpoints'', ''h4'')],
                 local_unit_data =
                   [(''alias'', ''cluster1''),
                    (''data'', dumps_flat (json_of_dict
                       [(''endpoints'', ''h1''), (''read-only-endpoints'', ''h2'')]))],
                 local_app_data = []\<rparr>],
             is_leader = True\<rparr>
            \<lparr>ev_relation_id = 1, ev_app = ''database'', ev_unit = None\<rparr> = (m', ems, err)
          \<and> \<not> fired self ''database_created'' ems
          \<and> fired self ''endpoints_changed'' ems
          \<and> \<not> fired self ''read_only_endpoints_changed'' ems)"
proof -
  let ?self = "\<lparr>extra_user_roles = None, database = ''data_platform'',
      relations_aliases = Some [''cluster1'', ''cluster2''],
      on_events = DatabaseEvents @ alias_events ''cluster1'' @ alias_events ''cluster2''\<rparr>"
  let ?ev = "\<lparr>ev_relation_id = 1, ev_app = ''database'', ev_unit = None\<rparr>"
  let ?fresh = "\<lparr>rel_id = 1,
      app_data = [(''username'', ''u''), (''password'', ''p''),
                  (''endpoints'', ''h1''), (''read-only-endpoints'', ''h2'')],
      local_unit_data = [(''alias'', ''cluster1'')], local_app_data = []\<rparr>"
  let ?known = "\<lparr>rel_id = 1,
      app_data = [(''endpoints'', ''h3''), (''read-only-endpoints'', ''h4'')],
      local_unit_data =
        [(''alias'', ''cluster1''),
         (''data'', dumps_flat (json_of_dict
            [(''endpoints'', ''h1''), (''read-only-endpoints'', ''h2'')]))],
      local_app_data = []\<rparr>"
  let ?mf = "\<lparr>relations = [?fresh], is_leader = True\<rparr>"
  let ?mk = "\<lparr>relations = [?known], is_leader = True\<rparr>"
  have init: "DatabaseRequires_init DatabaseEvents (Some 2) ''data_platform'' None
        (Some [''cluster1'', ''cluster2'']) = Inr ?self"
    by (simp add: DatabaseRequires_init_def define_event_def DatabaseEvents_def alias_events_def)
  have base: "set DatabaseEvents \<subseteq> set DatabaseEvents" by simp
  have held_f: "set (assigned_aliases (relations ?mf)) \<subseteq> set (pool ?self)"
    by (simp add: dict_get_def pool_def)
  have held_k: "set (assigned_aliases (relations ?mk)) \<subseteq> set (pool ?self)"
    by (simp add: dict_get_def pool_def)
  have rel_f: "get_relation ?mf (ev_relation_id ?ev) = Some ?fresh"
    by (simp add: get_relation_def)
  have rel_k: "get_relation ?mk (ev_relation_id ?ev) = Some ?known"
    by (simp add: get_relation_def)
  have d_f: "\<exists>rel'. diff loads_flat dumps_flat ?fresh =
      Inr (\<lparr>added = {''username'', ''password'', ''endpoints'', ''read-only-endpoints''},
            changed = {}, deleted = {}\<rparr>, rel')"
    by (simp add: diff_def Let_def codec_simps)
  have d_k: "\<exists>rel'. diff loads_flat dumps_flat ?known =
      Inr (\<lparr>added = {}, changed = {''endpoints'', ''read-only-endpoints''}, deleted = {}\<rparr>, rel')"
    by (simp add: diff_def Let_def codec_simps) auto
  obtain mf' ef xf where run_f:
    "on_relation_changed_event loads_flat dumps_flat ?self ?mf ?ev = (mf', ef, xf)"
    by (rule prod_cases3)
  obtain mk' ek xk where run_k:
    "on_relation_changed_event loads_flat dumps_flat ?self ?mk ?ev = (mk', ek, xk)"
    by (rule prod_cases3)
  from relation_changed_one_kind [OF init base held_f rel_f run_f] d_f
  have 1: "fired ?self ''database_created'' ef \<and> \<not> fired ?self ''endpoints_changed'' ef
      \<and> \<not> fired ?self ''read_only_endpoints_changed'' ef"
    by auto
  from relation_changed_one_kind [OF init base held_k rel_k run_k] d_k
  have 2: "\<not> fired ?self ''database_created'' ek \<and> fired ?self ''endpoints_changed'' ek
      \<and> \<not> fired ?self ''read_only_endpoints_changed'' ek"
    by auto
  from init run_f 1 run_k 2 show ?thesis by blast
qed

text \<open>
  C5. Under the same conditions the handler raises no error once \<open>diff\<close> has returned,
  and what it emits for the kind it has chosen is \<open>spec_publish\<close>: the unqualified event
  first, then the event \<^verbatim>\<open><alias>_<kind>\<close> exactly when the relation has an alias, each with
  the relation, application and unit of the event handled.
\<close>

theorem relation_changed_dual_dispatch:
  assumes init: "DatabaseRequires_init events limit database_name roles aliases_opt = Inr self"
    and held: "set (assigned_aliases (relations m)) \<subseteq> set (pool self)"
    and rel: "get_relation m (ev_relation_id ev) = Some relation"
    and run: "on_relation_changed_event json_loads json_dumps self m ev = (m', ems, err)"
  shows "case diff json_loads json_dumps relation of
           Inl e \<Rightarrow> ems = [] \<and> err = Some e
         | Inr (d, relation') \<Rightarrow>
             err = None
             \<and> (\<forall>e \<in> set ems. em_relation e = ev_relation_id ev \<and> em_app e = ev_app ev
                   \<and> em_unit e = ev_unit ev)
             \<and> (if ''username'' \<in> added d \<and> ''password'' \<in> added d then
                  ems = spec_publish relation ev ''database_created''
                else if ''endpoints'' \<in> added d \<or> ''endpoints'' \<in> changed d then
                  ems = spec_publish relation ev ''endpoints_changed''
                else if ''read-only-endpoints'' \<in> added d \<or> ''read-only-endpoints'' \<in> changed d then
                  ems = spec_publish relation ev ''read_only_endpoints_changed''
                else ems = [])"
proof (cases "diff json_loads json_dumps relation")
  case (Inl e)
  with rel run show ?thesis
    by (simp add: on_relation_changed_event_def)
next
  case (Inr p)
  obtain d relation' where p: "p = (d, relation')" by (cases p)
  with Inr have d: "diff json_loads json_dumps relation = Inr (d, relation')" by simp
  have payload: "\<forall>e \<in> set (spec_publish relation ev kind).
      em_relation e = ev_relation_id ev \<and> em_app e = ev_app ev \<and> em_unit e = ev_unit ev" for kind
    by (auto simp: spec_publish_def emit_def split: option.splits)
  have one: "ems = spec_publish relation ev kind \<and> err = None"
    if "kind \<in> set DatabaseEvents"
      and "emit_both self (put_relation relation' m) ev kind = (m', ems, err)" for kind
    using emit_both_spec(1,3) [OF emit_both_shape [OF init held rel d that]] by simp
  have kinds: "''database_created'' \<in> set DatabaseEvents" "''endpoints_changed'' \<in> set DatabaseEvents"
    "''read_only_endpoints_changed'' \<in> set DatabaseEvents"
    by (simp_all add: DatabaseEvents_def)
  show ?thesis
  proof (cases "''username'' \<in> added d \<and> ''password'' \<in> added d")
    case True
    with run handler_created [OF rel d, of self]
    have "emit_both self (put_relation relation' m) ev ''database_created'' = (m', ems, err)"
      by simp
    from one [OF kinds(1) this] payload True d show ?thesis by auto
  next
    case created: False
    show ?thesis
    proof (cases "''endpoints'' \<in> added d \<or> ''endpoints'' \<in> changed d")
      case True
      with run handler_endpoints [OF rel d created, of self]
      have "emit_both self (put_relation relation' m) ev ''endpoints_changed'' = (m', ems, err)"
        by simp
      from one [OF kinds(2) this] payload True created d show ?thesis by auto
    next
      case endpoints: False
      show ?thesis
      proof (cases "''read-only-endpoints'' \<in> added d \<or> ''read-only-endpoints'' \<in> changed d")
        case True
        with run handler_read_only_endpoints [OF rel d created endpoints, of self]
        have "emit_both self (put_relation relation' m) ev ''read_only_endpoints_changed'' = (m', ems, err)"
          by simp
        from one [OF kinds(3) this] payload True created endpoints d show ?thesis by auto
      next
        case False
        with run handler_nothing [OF rel d created endpoints, of self] created endpoints d
        show ?thesis by auto
      qed
    qed
  qed
qed

text \<open>
  The same update for a relation with the alias \<^verbatim>\<open>cluster1\<close> and, with no pool
  configured, for a relation with no alias.
\<close>

theorem relation_changed_dual_dispatch_witness:
  "(\<exists>self. DatabaseRequires_init DatabaseEvents (Some 2) ''data_platform'' None
        (Some [''cluster1'', ''cluster2'']) = Inr self
     \<and> (\<exists>m'. on_relation_changed_event loads_flat dumps_flat self
            \<lparr>relations =
               [\<lparr>rel_id = 1,
                 app_data = [(''username'', ''u''), (''password'', ''p''), (''endpoints'', ''h1'')],
                 local_unit_data = [(''alias'', ''cluster1'')], local_app_data = []\<rparr>],
             is_leader = True\<rparr>
            \<lparr>ev_relation_id = 1, ev_app = ''database'', ev_unit = Some ''database/0''\<rparr> =
          (m',
           [\<lparr>em_name = ''database_created'', em_relation = 1, em_app = ''database'',
             em_unit = Some ''database/0''\<rparr>,
            \<lparr>em_name = ''cluster1_database_created'', em_relation = 1, em_app = ''database'',
             em_unit = Some ''database/0''\<rparr>],
           None)))
   \<and> (\<exists>self. DatabaseRequires_init DatabaseEvents (Some 2) ''data_platform'' None None = Inr self
     \<and> (\<exists>m'. on_relation_changed_event loads_flat dumps_flat self
            \<lparr>relations =
               [\<lparr>rel_id = 1,
                 app_data = [(''username'', ''u''), (''password'', ''p''), (''endpoints'', ''h1'')],
                 local_unit_data = [], local_app_data = []\<rparr>],
             is_leader = True\<rparr>
            \<lparr>ev_relation_id = 1, ev_app = ''database'', ev_unit = Some ''database/0''\<rparr> =
          (m',
           [\<lparr>em_name = ''database_created'', em_relation = 1, em_app = ''database'',
             em_unit = Some ''database/0''\<rparr>],
           None)))"
proof -
  let ?self = "\<lparr>extra_user_roles = None, database = ''data_platform'',
      relations_aliases = Some [''cluster1'', ''cluster2''],
      on_events = DatabaseEvents @ alias_events ''cluster1'' @ alias_events ''cluster2''\<rparr>"
  let ?plain = "\<lparr>extra_user_roles = None, database = ''data_platform'',
      relations_aliases = None, on_events = DatabaseEvents\<rparr>"
  let ?ev = "\<lparr>ev_relation_id = 1, ev_app = ''database'', ev_unit = Some ''database/0''\<rparr>"
  let ?named = "\<lparr>rel_id = 1,
      app_data = [(''username'', ''u''), (''password'', ''p''), (''endpoints'', ''h1'')],
      local_unit_data = [(''alias'', ''cluster1'')], local_app_data = []\<rparr>"
  let ?bare = "\<lparr>rel_id = 1,
      app_data = [(''username'', ''u''), (''password'', ''p''), (''endpoints'', ''h1'')],
      local_unit_data = [], local_app_data = []\<rparr>"
  let ?mn = "\<lparr>relations = [?named], is_leader = True\<rparr>"
  let ?mb = "\<lparr>relations = [?bare], is_leader = True\<rparr>"
  have init: "DatabaseRequires_init DatabaseEvents (Some 2) ''data_platform'' None
        (Some [''cluster1'', ''cluster2'']) = Inr ?self"
    by (simp add: DatabaseRequires_init_def define_event_def DatabaseEvents_def alias_events_def)
  have init_plain: "DatabaseRequires_init DatabaseEvents (Some 2) ''data_platform'' None None
        = Inr ?plain"
    by (simp add: DatabaseRequires_init_def)
  have held_n: "set (assigned_aliases (relations ?mn)) \<subseteq> set (pool ?self)"
    by (simp add: dict_get_def pool_def)
  have held_b: "set (assigned_aliases (relations ?mb)) \<subseteq> set (pool ?plain)"
    by (simp add: dict_get_def pool_def)
  have rel_n: "get_relation ?mn (ev_relation_id ?ev) = Some ?named"
    by (simp add: get_relation_def)
  have rel_b: "get_relation ?mb (ev_relation_id ?ev) = Some ?bare"
    by (simp add: get_relation_def)
  have d_n: "\<exists>rel'. diff loads_flat dumps_flat ?named =
      Inr (\<lparr>added = {''username'', ''password'', ''endpoints''}, changed = {}, deleted = {}\<rparr>, rel')"
    by (simp add: diff_def Let_def codec_simps)
  have d_b: "\<exists>rel'. diff loads_flat dumps_flat ?bare =
      Inr (\<lparr>added = {''username'', ''password'', ''endpoints''}, changed = {}, deleted = {}\<rparr>, rel')"
    by (simp add: diff_def Let_def codec_simps)
  obtain mn' en xn where run_n:
    "on_relation_changed_event loads_flat dumps_flat ?self ?mn ?ev = (mn', en, xn)"
    by (rule prod_cases3)
  obtain mb' eb xb where run_b:
    "on_relation_changed_event loads_flat dumps_flat ?plain ?mb ?ev = (mb', eb, xb)"
    by (rule prod_cases3)
  from relation_changed_dual_dispatch [OF init held_n rel_n run_n] d_n
  have 1: "xn = None \<and> en = spec_publish ?named ?ev ''database_created''"
    by auto
  from relation_changed_dual_dispatch [OF init_plain held_b rel_b run_b] d_b
  have 2: "xb = None \<and> eb = spec_publish ?bare ?ev ''database_created''"
    by auto
  from 1 run_n have "on_relation_changed_event loads_flat dumps_flat ?self ?mn ?ev =
      (mn', [\<lparr>em_name = ''database_created'', em_relation = 1, em_app = ''database'',
             em_unit = Some ''database/0''\<rparr>,
            \<lparr>em_name = ''cluster1_database_created'', em_relation = 1, em_app = ''database'',
             em_unit = Some ''database/0''\<rparr>], None)"
    by (simp add: spec_publish_def emit_def dict_get_def)
  moreover from 2 run_b have "on_relation_changed_event loads_flat dumps_flat ?plain ?mb ?ev =
      (mb', [\<lparr>em_name = ''database_created'', em_relation = 1, em_app = ''database'',
             em_unit = Some ''database/0''\<rparr>], None)"
    by (simp add: spec_publish_def emit_def dict_get_def)
  ultimately show ?thesis
    using init init_plain by blast
qed

section \<open>The held aliases in the models that the library reaches\<close>

lemma find_by_own_id:
  assumes "find (\<lambda>x. rel_id x = i) rs = Some r" and "rel_id r' = rel_id r"
  shows "find (\<lambda>x. rel_id x = rel_id r') rs = Some r"
proof -
  from find_SomeD [OF assms(1)] have "rel_id r = i" by simp
  with assms show ?thesis by simp
qed

lemma assigned_replace_same:
  "find (\<lambda>x. rel_id x = rel_id r') rs = Some r \<Longrightarrow>
   dict_get (local_unit_data r') ''alias'' = dict_get (local_unit_data r) ''alias'' \<Longrightarrow>
     assigned_aliases (replace_relation r' rs) = assigned_aliases rs"
  by (induction rs) (auto split: if_splits option.splits)

lemma assigned_replace_new:
  assumes "find (\<lambda>x. rel_id x = rel_id r') rs = Some r"
    and "\<not> truthy (dict_get (local_unit_data r) ''alias'')"
    and "dict_get (local_unit_data r') ''alias'' = Some a"
    and "a \<notin> set (assigned_aliases rs)"
    and "distinct (assigned_aliases rs)"
  shows "set (assigned_aliases (replace_relation r' rs)) \<subseteq> insert a (set (assigned_aliases rs))
     \<and> distinct (assigned_aliases (replace_relation r' rs))"
  using assms
proof (induction rs)
  case Nil
  then show ?case by simp
next
  case (Cons x rs)
  show ?case
  proof (cases "rel_id x = rel_id r'")
    case True
    with Cons.prems show ?thesis
      by (auto simp: truthy_def split: option.splits if_splits)
  next
    case False
    with Cons.prems have "find (\<lambda>x. rel_id x = rel_id r') rs = Some r"
      and "a \<notin> set (assigned_aliases rs)" and "distinct (assigned_aliases rs)"
      by (auto split: option.splits if_splits)
    with Cons.IH Cons.prems(2,3)
    have ih: "set (assigned_aliases (replace_relation r' rs)) \<subseteq> insert a (set (assigned_aliases rs))"
      "distinct (assigned_aliases (replace_relation r' rs))"
      by simp_all
    with False Cons.prems(4,5) show ?thesis
      by (auto split: option.splits if_splits)
  qed
qed

text \<open>
  The two facts about the held aliases that the theorems on aliases assume are kept by
  every function of the library that writes a databag, so they hold in every model that
  the library reaches from one in which no relation has an alias.
\<close>

lemma assign_relation_alias_keeps_held:
  assumes init: "DatabaseRequires_init events limit database_name roles aliases_opt = Inr self"
    and dist: "distinct (assigned_aliases (relations m))"
    and mem: "set (assigned_aliases (relations m)) \<subseteq> set (pool self)"
    and run: "assign_relation_alias self m relation_id = Inr m'"
  shows "distinct (assigned_aliases (relations m'))
     \<and> set (assigned_aliases (relations m')) \<subseteq> set (pool self)"
proof (cases "m' = m")
  case True
  with dist mem show ?thesis by simp
next
  case False
  with run obtain aliases relation a rest where
    pool: "relations_aliases self = Some aliases" and
    rel: "get_relation m relation_id = Some relation" and
    none: "\<not> truthy (dict_get (local_unit_data relation) ''alias'')" and
    av: "remove_assigned (relations m) aliases = Inr (a # rest)" and
    m': "m' = put_relation
          (relation\<lparr>local_unit_data := dict_update (local_unit_data relation) [(''alias'', a)]\<rparr>) m"
    by (auto simp: assign_relation_alias_def split: option.splits if_splits sum.splits list.splits)
  let ?claimed = "assigned_aliases (relations m)"
  let ?r = "relation\<lparr>local_unit_data := dict_update (local_unit_data relation) [(''alias'', a)]\<rparr>"
  from pool have p: "pool self = aliases" by (simp add: pool_def)
  from init_pool(2) [OF init] p have "distinct aliases"
    by (simp add: distinct_aliases)
  then have "fold remove1 ?claimed aliases = filter (\<lambda>a. a \<notin> set ?claimed) aliases"
    by (rule fold_remove1_filter)
  moreover from dist mem p have "remove_assigned (relations m) aliases = Inr (fold remove1 ?claimed aliases)"
    by (simp add: remove_assigned_fold)
  ultimately have "a # rest = filter (\<lambda>a. a \<notin> set ?claimed) aliases"
    using av by simp
  then have "a \<in> set (filter (\<lambda>a. a \<notin> set ?claimed) aliases)"
    by (metis list.set_intros(1))
  then have a: "a \<in> set aliases" "a \<notin> set ?claimed" by simp_all
  from rel have found: "find (\<lambda>x. rel_id x = rel_id ?r) (relations m) = Some relation"
    by (simp add: get_relation_def find_by_own_id)
  have stored: "dict_get (local_unit_data ?r) ''alias'' = Some a"
    by (simp add: dict_get_update_single)
  from assigned_replace_new [OF found none stored a(2) dist] a(1) mem p m' show ?thesis
    by (auto simp: put_relation_def)
qed

lemma relation_changed_keeps_held:
  assumes "on_relation_changed_event json_loads json_dumps self m ev = (m', ems, err)"
  shows "assigned_aliases (relations m') = assigned_aliases (relations m)"
proof (cases "get_relation m (ev_relation_id ev)")
  case None
  with assms show ?thesis
    by (simp add: on_relation_changed_event_def)
next
  case (Some relation)
  show ?thesis
  proof (cases "diff json_loads json_dumps relation")
    case (Inl e)
    with Some assms show ?thesis
      by (simp add: on_relation_changed_event_def)
  next
    case (Inr p)
    obtain d relation' where "p = (d, relation')" by (cases p)
    with Inr have d: "diff json_loads json_dumps relation = Inr (d, relation')" by simp
    from assms Some d have "m' = put_relation relation' m"
      by (auto simp: on_relation_changed_event_def Let_def emit_both_def
          split: if_splits sum.splits)
    moreover from Some diff_keeps_alias [OF d]
    have "find (\<lambda>x. rel_id x = rel_id relation') (relations m) = Some relation"
      by (simp add: get_relation_def find_by_own_id)
    ultimately show ?thesis
      using diff_keeps_alias [OF d] by (simp add: put_relation_def assigned_replace_same)
  qed
qed

lemma update_relation_data_keeps_held:
  assumes "update_relation_data m relation_id data = Inr m'"
  shows "assigned_aliases (relations m') = assigned_aliases (relations m)"
proof (cases "m' = m")
  case True
  then show ?thesis by simp
next
  case False
  with assms obtain relation where rel: "get_relation m relation_id = Some relation"
    and m': "m' = put_relation
        (relation\<lparr>local_app_data := databag_update (local_app_data relation) data\<rparr>) m"
    by (auto simp: update_relation_data_def split: option.splits if_splits)
  from rel have "find (\<lambda>x. rel_id x =
      rel_id (relation\<lparr>local_app_data := databag_update (local_app_data relation) data\<rparr>))
      (relations m) = Some relation"
    by (simp add: get_relation_def find_by_own_id)
  with m' show ?thesis
    by (simp add: put_relation_def assigned_replace_same)
qed

end
